theory Spec2Isabelle
  imports Main "HOL-Library.Word" "HOL-Library.Monad_Syntax" "HOL-Library.List_Lexorder"
begin

section \<open>Go slices, loops and the byte buffer\<close>

text \<open>
  An index or slice expression out of range panics in Go. The functions below return
  \<open>None\<close> for a panic, so that every read of a slice is a branch of the model.
\<close>

definition idx :: "'a list \<Rightarrow> nat \<Rightarrow> 'a option" where
  "idx xs i = (if i < length xs then Some (xs ! i) else None)"

definition sliceFrom :: "'a list \<Rightarrow> nat \<Rightarrow> 'a list option" where
  "sliceFrom xs n = (if n \<le> length xs then Some (drop n xs) else None)"

text \<open>
  A counted \<^verbatim>\<open>for\<close> loop over the given indices whose body may panic; the loop
  state is threaded through the iterations.
\<close>

primrec forRange :: "nat list \<Rightarrow> (nat \<Rightarrow> 's \<Rightarrow> 's option) \<Rightarrow> 's \<Rightarrow> 's option" where
  "forRange [] body s = Some s"
| "forRange (i # rest) body s = Option.bind (body i s) (forRange rest body)"

text \<open>
  A \<^verbatim>\<open>bytes.Buffer\<close> is the sequence of writes made to it. A write of text that
  the program itself spells out is a \<open>Txt\<close> piece; a write of a string handed in by
  the caller (a quoted column name or a rendered bound value) is an \<open>Arg\<close> piece.
  \<^verbatim>\<open>buf.String()\<close> is the concatenation of the pieces, so the distinction does
  not change the text produced; it records which parts of the text are operands.
\<close>

datatype piece = Txt string | Arg string

type_synonym Buffer = "piece list"

definition WriteString :: "Buffer \<Rightarrow> string \<Rightarrow> Buffer" where
  "WriteString buf s = buf @ [Txt s]"

definition WriteByte :: "Buffer \<Rightarrow> char \<Rightarrow> Buffer" where
  "WriteByte buf c = buf @ [Txt [c]]"

definition WriteOperand :: "Buffer \<Rightarrow> string \<Rightarrow> Buffer" where
  "WriteOperand buf s = buf @ [Arg s]"

primrec pieceText :: "piece \<Rightarrow> string" where
  "pieceText (Txt s) = s"
| "pieceText (Arg s) = s"

definition bufString :: "Buffer \<Rightarrow> string" where
  "bufString buf = concat (map pieceText buf)"

section \<open>Range predicates\<close>

text \<open>\<^verbatim>\<open>escapeString\<close>: every backtick is doubled.\<close>

definition escapeString :: "string \<Rightarrow> string" where
  "escapeString s = concat (map (\<lambda>c. if c = CHR ''`'' then ''``'' else [c]) s)"

definition greater_c :: char where "greater_c = CHR ''>''"
definition less_c :: char where "less_c = CHR ''<''"
definition equal_c :: char where "equal_c = CHR ''=''"

text \<open>
  \<^verbatim>\<open>buildCompareClause\<close>. \<open>compareInner\<close> is the body of the inner loop over
  \<open>j < i\<close>, \<open>compareBody\<close> the body of the loop over the columns. The test
  \<^verbatim>\<open>i == len(quotaCols)-1\<close> is written \<open>Suc i = length quotaCols\<close>; inside the
  loop the slice is not empty.
\<close>

definition compareInner :: "string list \<Rightarrow> string list \<Rightarrow> nat \<Rightarrow> Buffer \<Rightarrow> Buffer option" where
  "compareInner quotaCols bound j buf = do {
     c \<leftarrow> idx quotaCols j;
     b \<leftarrow> idx bound j;
     Some (WriteString (WriteOperand (WriteByte (WriteOperand buf c) equal_c) b) '' and '')
   }"

definition compareBody ::
  "string list \<Rightarrow> string list \<Rightarrow> char \<Rightarrow> bool \<Rightarrow> nat \<Rightarrow> Buffer \<Rightarrow> Buffer option" where
  "compareBody quotaCols bound compare writeEqual i buf = do {
     col \<leftarrow> idx quotaCols i;
     buf1 \<leftarrow> forRange [0..<i] (compareInner quotaCols bound)
               (if i > 0 then WriteString buf ''or('' else buf);
     let buf2 = WriteByte (WriteOperand buf1 col) compare;
     let buf3 = (if writeEqual \<and> Suc i = length quotaCols then WriteByte buf2 equal_c else buf2);
     b \<leftarrow> idx bound i;
     let buf4 = WriteOperand buf3 b;
     Some (if i > 0 then WriteByte buf4 (CHR '')'')
           else if Suc i \<noteq> length quotaCols then WriteByte buf4 (CHR '' '')
           else buf4)
   }"

definition buildCompareClause ::
  "Buffer \<Rightarrow> string list \<Rightarrow> string list \<Rightarrow> char \<Rightarrow> bool \<Rightarrow> Buffer option" where
  "buildCompareClause buf quotaCols bound compare writeEqual =
     forRange [0..<length quotaCols] (compareBody quotaCols bound compare writeEqual) buf"

text \<open>
  \<^verbatim>\<open>getCommonLength\<close>: the loop runs over the indices of \<open>low\<close> and reads
  \<open>up\<close> at the same index, which panics when \<open>up\<close> is shorter.
\<close>

primrec commonLoop :: "string list \<Rightarrow> string list \<Rightarrow> nat list \<Rightarrow> nat option" where
  "commonLoop low up [] = Some (length low)"
| "commonLoop low up (i # rest) =
     (case idx up i of
        None \<Rightarrow> None
      | Some u \<Rightarrow> if low ! i \<noteq> u then Some i else commonLoop low up rest)"

definition getCommonLength :: "string list \<Rightarrow> string list \<Rightarrow> nat option" where
  "getCommonLength low up = commonLoop low up [0..<length low]"

text \<open>
  \<^verbatim>\<open>buildBetweenClause\<close>. The closure \<^verbatim>\<open>singleBetween\<close> reads the variables
  \<open>quotaCols\<close>, \<open>low\<close> and \<open>up\<close> when it is called, that is after they have
  been re-sliced past the common prefix; it takes them as arguments here.
  \<open>betweenRest\<close> is the part of the function after the common prefix has been
  handled, and the deferred write of the closing parenthesis is made after it.
\<close>

definition singleBetween ::
  "Buffer \<Rightarrow> string list \<Rightarrow> string list \<Rightarrow> string list \<Rightarrow> bool \<Rightarrow> Buffer option" where
  "singleBetween buf quotaCols low up writeEqual = do {
     c \<leftarrow> idx quotaCols 0;
     let buf1 = WriteByte (WriteOperand buf c) greater_c;
     let buf2 = (if writeEqual then WriteByte buf1 equal_c else buf1);
     l \<leftarrow> idx low 0;
     let buf3 = WriteByte (WriteOperand (WriteString (WriteOperand buf2 l) '' and '') c) less_c;
     u \<leftarrow> idx up 0;
     Some (WriteOperand buf3 u)
   }"

definition betweenRest ::
  "Buffer \<Rightarrow> string list \<Rightarrow> string list \<Rightarrow> string list \<Rightarrow> Buffer option" where
  "betweenRest buf quotaCols low up =
     (if length quotaCols = 1 then singleBetween buf quotaCols low up True
      else do {
        buf1 \<leftarrow> singleBetween (WriteByte buf (CHR ''('')) quotaCols low up False;
        c \<leftarrow> idx quotaCols 0;
        l \<leftarrow> idx low 0;
        let buf2 = WriteString (WriteOperand (WriteByte (WriteOperand
                     (WriteString buf1 '')or('') c) equal_c) l) '' and('';
        cols1 \<leftarrow> sliceFrom quotaCols 1;
        low1 \<leftarrow> sliceFrom low 1;
        buf3 \<leftarrow> buildCompareClause buf2 cols1 low1 greater_c True;
        u \<leftarrow> idx up 0;
        let buf4 = WriteString (WriteOperand (WriteByte (WriteOperand
                     (WriteString buf3 ''))or('') c) equal_c) u) '' and('';
        up1 \<leftarrow> sliceFrom up 1;
        buf5 \<leftarrow> buildCompareClause buf4 cols1 up1 less_c False;
        Some (WriteString buf5 ''))'')
      })"

definition prefixBody :: "string list \<Rightarrow> string list \<Rightarrow> nat \<Rightarrow> Buffer \<Rightarrow> Buffer option" where
  "prefixBody quotaCols low i buf = do {
     c \<leftarrow> idx quotaCols i;
     l \<leftarrow> idx low i;
     Some (WriteOperand (WriteByte (WriteOperand
            (if i > 0 then WriteString buf '' and '' else buf) c) equal_c) l)
   }"

definition buildBetweenClause ::
  "Buffer \<Rightarrow> string list \<Rightarrow> string list \<Rightarrow> string list \<Rightarrow> Buffer option" where
  "buildBetweenClause buf quotaCols low up = do {
     commonLen \<leftarrow> getCommonLength low up;
     if commonLen > 0 then
       if commonLen = length low then Some (WriteString buf ''false'')
       else do {
         buf1 \<leftarrow> forRange [0..<commonLen] (prefixBody quotaCols low) buf;
         cols' \<leftarrow> sliceFrom quotaCols commonLen;
         low' \<leftarrow> sliceFrom low commonLen;
         up' \<leftarrow> sliceFrom up commonLen;
         buf2 \<leftarrow> betweenRest (WriteString buf1 '' and('') cols' low' up';
         Some (WriteByte buf2 (CHR '')''))
       }
     else betweenRest buf quotaCols low up
   }"

text \<open>
  \<^verbatim>\<open>buildWhereClauses\<close>. \<open>buildWhereBufs\<close> collects the buffer contents at each
  \<^verbatim>\<open>buf.String()\<close>; \<open>buildWhereClauses\<close> returns their texts. The result
  \<^verbatim>\<open>nil\<close> is the empty list.
\<close>

definition quoteCol :: "string \<Rightarrow> string" where
  "quoteCol s = ''`'' @ escapeString s @ ''`''"

definition betweenStep :: "string list \<Rightarrow> string list list \<Rightarrow> nat \<Rightarrow> Buffer list \<Rightarrow> Buffer list option" where
  "betweenStep quotaCols handleVals i wh = do {
     low \<leftarrow> idx handleVals (i - 1);
     up \<leftarrow> idx handleVals i;
     buf \<leftarrow> buildBetweenClause [] quotaCols low up;
     Some (wh @ [buf])
   }"

definition buildWhereBufs :: "string list \<Rightarrow> string list list \<Rightarrow> Buffer list option" where
  "buildWhereBufs handleColNames handleVals =
     (if length handleColNames = 0 \<or> length handleVals = 0 then Some []
      else do {
        let quotaCols = map quoteCol handleColNames;
        first \<leftarrow> idx handleVals 0;
        buf \<leftarrow> buildCompareClause [] quotaCols first less_c False;
        wh \<leftarrow> forRange [1..<length handleVals] (betweenStep quotaCols handleVals) [buf];
        lastv \<leftarrow> idx handleVals (length handleVals - 1);
        buf' \<leftarrow> buildCompareClause [] quotaCols lastv greater_c True;
        Some (wh @ [buf'])
      })"

definition buildWhereClauses :: "string list \<Rightarrow> string list list \<Rightarrow> string list option" where
  "buildWhereClauses handleColNames handleVals =
     map_option (map bufString) (buildWhereBufs handleColNames handleVals)"

section \<open>The meaning of a predicate text\<close>

text \<open>
  The predicates are read as SQL search conditions: \<^verbatim>\<open>or\<close> binds weaker than
  \<^verbatim>\<open>and\<close>, which binds weaker than a comparison, and parentheses group. The text
  pieces are split into tokens, the operand pieces are single tokens, and the token
  sequence is parsed by recursive descent. The parser takes fuel, which decreases at
  every call; \<open>parseCond\<close> supplies three units of fuel per token and three more.
\<close>

datatype token =
  TOperand string | TLParen | TRParen | TAnd | TOr | TFalse | TLess | TGreater | TEqual
  | TBad char

fun lexTxt :: "string \<Rightarrow> token list" where
  "lexTxt [] = []"
| "lexTxt (c # cs) =
     (if c = CHR '' '' then lexTxt cs
      else if c = CHR ''('' then TLParen # lexTxt cs
      else if c = CHR '')'' then TRParen # lexTxt cs
      else if c = CHR ''<'' then TLess # lexTxt cs
      else if c = CHR ''>'' then TGreater # lexTxt cs
      else if c = CHR ''='' then TEqual # lexTxt cs
      else if c = CHR ''a'' \<and> take 2 cs = ''nd'' then TAnd # lexTxt (drop 2 cs)
      else if c = CHR ''o'' \<and> take 1 cs = ''r'' then TOr # lexTxt (drop 1 cs)
      else if c = CHR ''f'' \<and> take 4 cs = ''alse'' then TFalse # lexTxt (drop 4 cs)
      else TBad c # lexTxt cs)"

primrec pieceTokens :: "piece \<Rightarrow> token list" where
  "pieceTokens (Txt s) = lexTxt s"
| "pieceTokens (Arg s) = [TOperand s]"

definition bufTokens :: "Buffer \<Rightarrow> token list" where
  "bufTokens buf = concat (map pieceTokens buf)"

datatype cmpop = OpLt | OpLe | OpGt | OpGe | OpEq

datatype cond = Cmp string cmpop string | CFalse | And cond cond | Or cond cond

fun parseOp :: "token list \<Rightarrow> (cmpop \<times> token list) option" where
  "parseOp (TLess # TEqual # ts) = Some (OpLe, ts)"
| "parseOp (TLess # ts) = Some (OpLt, ts)"
| "parseOp (TGreater # TEqual # ts) = Some (OpGe, ts)"
| "parseOp (TGreater # ts) = Some (OpGt, ts)"
| "parseOp (TEqual # ts) = Some (OpEq, ts)"
| "parseOp ts = None"

fun parseOr :: "nat \<Rightarrow> token list \<Rightarrow> (cond \<times> token list) option"
  and parseAnd :: "nat \<Rightarrow> token list \<Rightarrow> (cond \<times> token list) option"
  and parsePrim :: "nat \<Rightarrow> token list \<Rightarrow> (cond \<times> token list) option" where
  "parseOr 0 ts = None"
| "parseOr (Suc n) ts =
     (case parseAnd n ts of
        None \<Rightarrow> None
      | Some (a, TOr # r) \<Rightarrow>
          (case parseOr n r of None \<Rightarrow> None | Some (b, r') \<Rightarrow> Some (Or a b, r'))
      | Some (a, r) \<Rightarrow> Some (a, r))"
| "parseAnd 0 ts = None"
| "parseAnd (Suc n) ts =
     (case parsePrim n ts of
        None \<Rightarrow> None
      | Some (a, TAnd # r) \<Rightarrow>
          (case parseAnd n r of None \<Rightarrow> None | Some (b, r') \<Rightarrow> Some (And a b, r'))
      | Some (a, r) \<Rightarrow> Some (a, r))"
| "parsePrim 0 ts = None"
| "parsePrim (Suc n) (TLParen # ts) =
     (case parseOr n ts of Some (a, TRParen # r) \<Rightarrow> Some (a, r) | _ \<Rightarrow> None)"
| "parsePrim (Suc n) (TFalse # ts) = Some (CFalse, ts)"
| "parsePrim (Suc n) (TOperand c # ts) =
     (case parseOp ts of Some (opr, TOperand v # r) \<Rightarrow> Some (Cmp c opr v, r) | _ \<Rightarrow> None)"
| "parsePrim (Suc n) ts = None"

definition parseCond :: "token list \<Rightarrow> cond option" where
  "parseCond ts =
     (case parseOr (3 * length ts + 3) ts of Some (c, []) \<Rightarrow> Some c | _ \<Rightarrow> None)"

text \<open>
  A row gives a value to every column text, and every bound text denotes a value; the
  values are linearly ordered. \<open>selects row lit buf\<close> is \<open>Some True\<close> when the
  predicate written into \<open>buf\<close> holds of the row, \<open>Some False\<close> when it does not,
  and \<open>None\<close> when the text is not a search condition.
\<close>

primrec cmpHolds :: "cmpop \<Rightarrow> 'v::linorder \<Rightarrow> 'v \<Rightarrow> bool" where
  "cmpHolds OpLt x y = (x < y)"
| "cmpHolds OpLe x y = (x \<le> y)"
| "cmpHolds OpGt x y = (y < x)"
| "cmpHolds OpGe x y = (y \<le> x)"
| "cmpHolds OpEq x y = (x = y)"

primrec holds :: "(string \<Rightarrow> 'v::linorder) \<Rightarrow> (string \<Rightarrow> 'v) \<Rightarrow> cond \<Rightarrow> bool" where
  "holds row lit (Cmp c opr v) = cmpHolds opr (row c) (lit v)"
| "holds row lit CFalse = False"
| "holds row lit (And a b) = (holds row lit a \<and> holds row lit b)"
| "holds row lit (Or a b) = (holds row lit a \<or> holds row lit b)"

definition selects :: "(string \<Rightarrow> 'v::linorder) \<Rightarrow> (string \<Rightarrow> 'v) \<Rightarrow> Buffer \<Rightarrow> bool option" where
  "selects row lit buf = map_option (holds row lit) (parseCond (bufTokens buf))"

section \<open>Row-length sizing\<close>

text \<open>
  \<^verbatim>\<open>GetSuitableRows\<close> of \<^verbatim>\<open>v4/export/sql.go\<close>. The argument and the result are
  \<^verbatim>\<open>uint64\<close>; the three constants are untyped Go constants used at that type.
\<close>

definition defaultRows :: "64 word" where
  "defaultRows = 200000"

definition maxRows :: "64 word" where
  "maxRows = 1000000"

definition bytesPerFile :: "64 word" where
  "bytesPerFile = 128 * 1024 * 1024"

definition GetSuitableRows :: "64 word \<Rightarrow> 64 word" where
  "GetSuitableRows avgRowLength =
     (if avgRowLength = 0 then defaultRows
      else let estimateRows = bytesPerFile div avgRowLength in
        if estimateRows > maxRows then maxRows else estimateRows)"

section \<open>Errors, connections and result sets\<close>

text \<open>
  An error of the database layer is its message. \<^verbatim>\<open>errors.Trace\<close> and
  \<^verbatim>\<open>errors.Annotatef\<close> wrap an error; \<open>Trace\<close> and \<open>Annotate\<close> keep the wrapped
  error and the annotation text. The \<^verbatim>\<open>nil\<close> error is \<open>None\<close> of an option.
\<close>

datatype goerr = Plain string | Trace goerr | Annotate string goerr

text \<open>
  A result set (\<^verbatim>\<open>*sql.Rows\<close>): what \<^verbatim>\<open>Columns()\<close> returns, the records that
  \<^verbatim>\<open>Next()\<close> delivers in order, each with what \<^verbatim>\<open>Scan\<close> into one
  \<^verbatim>\<open>sql.NullString\<close> per column returns for it (\<open>None\<close> is SQL NULL, and the driver
  yields one value per column), and what \<^verbatim>\<open>Err()\<close> returns once \<^verbatim>\<open>Next()\<close> has
  returned false.
\<close>

record Rows =
  rowsColumns :: "string + string list"
  rowsRecords :: "(string + string option list) list"
  rowsErr :: "string option"

text \<open>
  A connection (\<^verbatim>\<open>*sql.Conn\<close>) answers a query text with an error or a result set, and
  a statement text with an error or success.
\<close>

record Conn =
  QueryContext :: "string \<Rightarrow> string + Rows"
  ExecContext :: "string \<Rightarrow> string option"

text \<open>The \<^verbatim>\<open>String\<close> field of a scanned \<^verbatim>\<open>sql.NullString\<close>: empty for NULL.\<close>

definition nullString :: "string option \<Rightarrow> string" where
  "nullString v = (case v of None \<Rightarrow> '''' | Some s \<Rightarrow> s)"

section \<open>Probing the implicit row identity\<close>

text \<open>
  \<^verbatim>\<open>SelectTiDBRowID\<close>. \<^verbatim>\<open>strings.ToLower\<close> is a parameter; \<open>Contains\<close> is
  \<^verbatim>\<open>strings.Contains\<close>. The code number is printed with \<^verbatim>\<open>%d\<close>.
\<close>

primrec Contains :: "string \<Rightarrow> string \<Rightarrow> bool" where
  "Contains [] substr = (substr = [])"
| "Contains (c # cs) substr = (take (length substr) (c # cs) = substr \<or> Contains cs substr)"

definition errBadFieldCode :: string where
  "errBadFieldCode = ''1054''"

definition tiDBRowIDQuery :: "string \<Rightarrow> string \<Rightarrow> string" where
  "tiDBRowIDQuery database table =
     ''SELECT _tidb_rowid from `'' @ escapeString database @ ''`.`'' @ escapeString table
     @ ''` LIMIT 0''"

definition SelectTiDBRowID ::
  "(string \<Rightarrow> string) \<Rightarrow> Conn \<Rightarrow> string \<Rightarrow> string \<Rightarrow> bool \<times> goerr option" where
  "SelectTiDBRowID ToLower db database table =
     (case ExecContext db (tiDBRowIDQuery database table) of
        Some err \<Rightarrow>
          if Contains (ToLower err) errBadFieldCode then (False, None)
          else (False, Some (Annotate (''sql: '' @ tiDBRowIDQuery database table) (Plain err)))
      | None \<Rightarrow> (True, None))"

section \<open>Reading named columns of a result set\<close>

text \<open>
  \<^verbatim>\<open>GetSpecifiedColumnValuesAndClose\<close>. \<^verbatim>\<open>strings.ToUpper\<close> is a parameter.
  \<open>fieldIndexMap\<close> is the map \<^verbatim>\<open>fieldIndexMp\<close> from column positions to positions in
  \<open>columnName\<close> after the two nested loops. Go ranges over a map in an order it does not
  specify: \<open>order r\<close> lists the keys in the order of the range made for the record
  number \<open>r\<close>, and a position that is no key of the map is passed over.
\<close>

definition fieldIndexMap :: "(string \<Rightarrow> string) \<Rightarrow> string list \<Rightarrow> string list \<Rightarrow> (nat \<rightharpoonup> nat)" where
  "fieldIndexMap ToUpper columns columnName =
     fold (\<lambda>i mp. fold (\<lambda>j mp'. if ToUpper (columns ! i) = columnName ! j then mp'(i \<mapsto> j) else mp')
                        [0..<length columnName] mp)
          [0..<length columns] Map.empty"

definition rowStep ::
  "(nat \<rightharpoonup> nat) \<Rightarrow> string option list \<Rightarrow> nat \<Rightarrow> bool \<times> string list \<Rightarrow> bool \<times> string list" where
  "rowStep mp oneRow colPos st =
     (case mp colPos of
        None \<Rightarrow> st
      | Some namePos \<Rightarrow>
          (case oneRow ! colPos of
             Some s \<Rightarrow> (True, (snd st)[namePos := s])
           | None \<Rightarrow> st))"

fun scanRows ::
  "(nat \<rightharpoonup> nat) \<Rightarrow> (nat \<Rightarrow> nat list) \<Rightarrow> nat \<Rightarrow> string option \<Rightarrow> nat
   \<Rightarrow> (string + string option list) list \<Rightarrow> string list list
   \<Rightarrow> string list list \<times> goerr option" where
  "scanRows mp order n finalErr r [] strs = (strs, map_option (\<lambda>e. Trace (Plain e)) finalErr)"
| "scanRows mp order n finalErr r (Inl err # rest) strs = (strs, Some (Trace (Plain err)))"
| "scanRows mp order n finalErr r (Inr oneRow # rest) strs =
     (let st = fold (rowStep mp oneRow) (order r) (False, replicate n '''')
      in scanRows mp order n finalErr (Suc r) rest (if fst st then strs @ [snd st] else strs))"

definition GetSpecifiedColumnValuesAndClose ::
  "(string \<Rightarrow> string) \<Rightarrow> (nat \<Rightarrow> nat list) \<Rightarrow> Rows option \<Rightarrow> string list
   \<Rightarrow> string list list \<times> goerr option" where
  "GetSpecifiedColumnValuesAndClose ToUpper order rows columnName =
     (case rows of
        None \<Rightarrow> ([], None)
      | Some rs \<Rightarrow>
          (case rowsColumns rs of
             Inl err \<Rightarrow> ([], Some (Trace (Plain err)))
           | Inr columns \<Rightarrow>
               let fieldIndexMp = fieldIndexMap ToUpper columns columnName
               in if fieldIndexMp = Map.empty then ([], None)
                  else scanRows fieldIndexMp order (length columnName) (rowsErr rs) 0
                         (rowsRecords rs) []))"

section \<open>Choosing the ordering column\<close>

text \<open>
  \<^verbatim>\<open>getNumericIndex\<close> and \<^verbatim>\<open>pickupPossibleField\<close>. The table description
  \<^verbatim>\<open>TableMeta\<close> is an interface declared outside these sources; the record has the
  methods the two functions call. The helper \<^verbatim>\<open>string2Map\<close> and the set
  \<^verbatim>\<open>dataTypeNum\<close> of numeric type names are declared outside these sources too and are
  parameters. Reading a missing key of a Go map of strings gives the empty string.
  \<open>numericIndexLoop\<close> is the loop over the index rows, with the variable
  \<open>uniqueColumnName\<close> as its state; every row has the three requested fields.
\<close>

record TableMeta =
  DatabaseName :: string
  TableName :: string
  ColumnNames :: "string list"
  ColumnTypes :: "string list"
  HasImplicitRowID :: bool

definition showIndexQuery :: "string \<Rightarrow> string \<Rightarrow> string" where
  "showIndexQuery database table =
     ''SHOW INDEX FROM `'' @ escapeString database @ ''`.`'' @ escapeString table @ ''`''"

fun numericIndexLoop ::
  "(string \<rightharpoonup> string) \<Rightarrow> string set \<Rightarrow> string list list \<Rightarrow> string \<Rightarrow> string" where
  "numericIndexLoop colName2Type dataTypeNum [] uniqueColumnName = uniqueColumnName"
| "numericIndexLoop colName2Type dataTypeNum (oneRow # rest) uniqueColumnName =
     (let ok = (nullString (colName2Type (oneRow ! 2)) \<in> dataTypeNum) in
      if ok \<and> oneRow ! 1 = ''PRIMARY'' then oneRow ! 2
      else numericIndexLoop colName2Type dataTypeNum rest
             (if uniqueColumnName \<noteq> '''' \<and> oneRow ! 0 = ''0'' \<and> ok then oneRow ! 2
              else uniqueColumnName))"

definition getNumericIndex ::
  "(string \<Rightarrow> string) \<Rightarrow> (nat \<Rightarrow> nat list) \<Rightarrow> (string list \<Rightarrow> string list \<Rightarrow> (string \<rightharpoonup> string))
   \<Rightarrow> string set \<Rightarrow> Conn \<Rightarrow> TableMeta \<Rightarrow> string \<times> goerr option" where
  "getNumericIndex ToUpper order string2Map dataTypeNum db meta =
     (let database = DatabaseName meta; table = TableName meta;
          colName2Type = string2Map (ColumnNames meta) (ColumnTypes meta);
          keyQuery = showIndexQuery database table
      in case QueryContext db keyQuery of
           Inl err \<Rightarrow> ('''', Some (Annotate (''sql: '' @ keyQuery) (Plain err)))
         | Inr rows \<Rightarrow>
             (case GetSpecifiedColumnValuesAndClose ToUpper order (Some rows)
                     [''NON_UNIQUE'', ''KEY_NAME'', ''COLUMN_NAME''] of
                (results, Some err) \<Rightarrow> ('''', Some (Annotate (''sql: '' @ keyQuery) err))
              | (results, None) \<Rightarrow>
                  (numericIndexLoop colName2Type dataTypeNum results '''', None)))"

definition pickupPossibleField ::
  "(string \<Rightarrow> string) \<Rightarrow> (nat \<Rightarrow> nat list) \<Rightarrow> (string list \<Rightarrow> string list \<Rightarrow> (string \<rightharpoonup> string))
   \<Rightarrow> string set \<Rightarrow> TableMeta \<Rightarrow> Conn \<Rightarrow> string \<times> goerr option" where
  "pickupPossibleField ToUpper order string2Map dataTypeNum meta db =
     (if HasImplicitRowID meta then (''_tidb_rowid'', None)
      else case getNumericIndex ToUpper order string2Map dataTypeNum db meta of
             (fieldName, Some err) \<Rightarrow> ('''', Some err)
           | (fieldName, None) \<Rightarrow> (fieldName, None))"

section \<open>Planner-based row estimate\<close>

text \<open>
  \<^verbatim>\<open>detectEstimateRows\<close> and \<^verbatim>\<open>estimateCount\<close>. The library functions
  \<^verbatim>\<open>strings.EqualFold\<close>, \<^verbatim>\<open>strconv.ParseFloat\<close> (\<open>None\<close> when it returns an error),
  the conversion of a \<^verbatim>\<open>float64\<close> to \<^verbatim>\<open>uint64\<close> and \<^verbatim>\<open>strings.TrimSpace\<close> are
  parameters; the type \<open>'f\<close> stands for \<^verbatim>\<open>float64\<close>. The function calls
  \<^verbatim>\<open>rows.Next()\<close> once: \<^verbatim>\<open>rows.Err()\<close> is then the final error when there is no
  record, and \<^verbatim>\<open>rows.Scan\<close> fails when there is no record. Log output is not modelled.
  \<open>findField\<close> is the labelled loop that sets \<open>fieldIndex\<close>; \<open>None\<close> is -1.
\<close>

primrec findField :: "(string \<Rightarrow> string \<Rightarrow> bool) \<Rightarrow> string list \<Rightarrow> string list \<Rightarrow> nat list \<Rightarrow> nat option" where
  "findField EqualFold columns fieldNames [] = None"
| "findField EqualFold columns fieldNames (i # rest) =
     (if list_ex (\<lambda>fieldName. EqualFold (columns ! i) fieldName) fieldNames then Some i
      else findField EqualFold columns fieldNames rest)"

definition detectEstimateRows ::
  "(string \<Rightarrow> string \<Rightarrow> bool) \<Rightarrow> (string \<Rightarrow> 'f option) \<Rightarrow> ('f \<Rightarrow> 64 word)
   \<Rightarrow> Conn \<Rightarrow> string \<Rightarrow> string list \<Rightarrow> 64 word" where
  "detectEstimateRows EqualFold ParseFloat toUint64 db query fieldNames =
     (case QueryContext db query of
        Inl err \<Rightarrow> 0
      | Inr rows \<Rightarrow>
          (case rowsColumns rows of
             Inl err \<Rightarrow> 0
           | Inr columns \<Rightarrow>
               if (if rowsRecords rows = [] then rowsErr rows else None) \<noteq> None then 0
               else
                 let fieldIndex = findField EqualFold columns fieldNames [0..<length columns]
                 in case (case rowsRecords rows of
                            [] \<Rightarrow> Inl ''sql: Scan called without calling Next''
                          | record # rest \<Rightarrow> record) of
                      Inl err \<Rightarrow> 0
                    | Inr oneRow \<Rightarrow>
                        (case fieldIndex of
                           None \<Rightarrow> 0
                         | Some i \<Rightarrow>
                             (case ParseFloat (nullString (oneRow ! i)) of
                                None \<Rightarrow> 0
                              | Some estRows \<Rightarrow> toUint64 estRows))))"

definition estimateQuery :: "(string \<Rightarrow> string) \<Rightarrow> string \<Rightarrow> string \<Rightarrow> string \<Rightarrow> string \<Rightarrow> string" where
  "estimateQuery TrimSpace dbName tableName field confWhere =
     (let query =
        (if TrimSpace field = ''*'' \<or> TrimSpace field = ''''
         then ''EXPLAIN SELECT * FROM `'' @ escapeString dbName @ ''`.`'' @ escapeString tableName @ ''`''
         else ''EXPLAIN SELECT `'' @ escapeString field @ ''` FROM `'' @ escapeString dbName
              @ ''`.`'' @ escapeString tableName @ ''`'')
      in if confWhere \<noteq> '''' then query @ '' WHERE '' @ confWhere else query)"

definition estimateCount ::
  "(string \<Rightarrow> string \<Rightarrow> bool) \<Rightarrow> (string \<Rightarrow> 'f option) \<Rightarrow> ('f \<Rightarrow> 64 word) \<Rightarrow> (string \<Rightarrow> string)
   \<Rightarrow> string \<Rightarrow> string \<Rightarrow> Conn \<Rightarrow> string \<Rightarrow> string \<Rightarrow> 64 word" where
  "estimateCount EqualFold ParseFloat toUint64 TrimSpace dbName tableName db field confWhere =
     (let estRows = detectEstimateRows EqualFold ParseFloat toUint64 db
                      (estimateQuery TrimSpace dbName tableName field confWhere)
                      [''rows'', ''estRows'', ''count'']
      in if estRows > 0 then estRows else 0)"

section \<open>Locking the tables\<close>

text \<open>
  Modelled from the spec: the declarations of \<^verbatim>\<open>TableType\<close>, \<^verbatim>\<open>TableInfo\<close> and
  \<^verbatim>\<open>DatabaseTables\<close> are not in the sources given. The spec speaks of base tables and
  views; the sources build a \<^verbatim>\<open>TableInfo\<close> from a name, an average row length and a
  type, and range over a \<^verbatim>\<open>DatabaseTables\<close> as a map from database names to lists of
  tables.
\<close>

datatype TableType = TableTypeBase | TableTypeView

record TableInfo =
  Name :: string
  AvgRowLength :: "64 word"
  Type :: TableType

text \<open>
  \<^verbatim>\<open>buildLockTablesSQL\<close>. The map \<open>allTables\<close> is the list of its entries in the
  order in which the range over it visits them. The state of the loops is the buffer
  \<open>s\<close> and the flag \<open>n\<close>.
\<close>

definition lockTableStep ::
  "string \<Rightarrow> string \<Rightarrow> (string \<rightharpoonup> (string \<rightharpoonup> 'x)) \<Rightarrow> TableInfo \<Rightarrow> string \<times> bool
   \<Rightarrow> string \<times> bool" where
  "lockTableStep dbName escapedDBName blockList table st =
     (if Type table \<noteq> TableTypeBase then st
      else if (case blockList dbName of
                 Some blockTable \<Rightarrow> blockTable (Name table) \<noteq> None
               | None \<Rightarrow> False) then st
      else if \<not> snd st
        then (fst st @ ''LOCK TABLES `'' @ escapedDBName @ ''`.`''
                @ escapeString (Name table) @ ''` READ'', True)
        else (fst st @ '',`'' @ escapedDBName @ ''`.`''
                @ escapeString (Name table) @ ''` READ'', snd st))"

definition buildLockTablesSQL ::
  "(string \<times> TableInfo list) list \<Rightarrow> (string \<rightharpoonup> (string \<rightharpoonup> 'x)) \<Rightarrow> string" where
  "buildLockTablesSQL allTables blockList =
     fst (fold (\<lambda>(dbName, tables) st.
                  fold (lockTableStep dbName (escapeString dbName) blockList) tables st)
            allTables ('''', False))"

section \<open>Sample library functions for the examples\<close>

text \<open>
  The examples need the library functions at concrete texts. \<open>asciiUpper\<close> and
  \<open>asciiLower\<close> change the case of the letters a to z and leave every other byte, as
  \<^verbatim>\<open>strings.ToUpper\<close> and \<^verbatim>\<open>strings.ToLower\<close> do on ASCII text;
  \<open>asciiEqualFold\<close> compares two texts after \<open>asciiLower\<close>; \<open>zipMap\<close> maps the
  keys to the values at the same positions, a later key winning.
\<close>

definition asciiUpper :: "string \<Rightarrow> string" where
  "asciiUpper s =
     map (\<lambda>c. case map_of (zip ''abcdefghijklmnopqrstuvwxyz'' ''ABCDEFGHIJKLMNOPQRSTUVWXYZ'') c of
                 Some u \<Rightarrow> u | None \<Rightarrow> c) s"

definition asciiLower :: "string \<Rightarrow> string" where
  "asciiLower s =
     map (\<lambda>c. case map_of (zip ''ABCDEFGHIJKLMNOPQRSTUVWXYZ'' ''abcdefghijklmnopqrstuvwxyz'') c of
                 Some u \<Rightarrow> u | None \<Rightarrow> c) s"

definition asciiEqualFold :: "string \<Rightarrow> string \<Rightarrow> bool" where
  "asciiEqualFold s t = (asciiLower s = asciiLower t)"

definition zipMap :: "string list \<Rightarrow> string list \<Rightarrow> (string \<rightharpoonup> string)" where
  "zipMap ks vs = map_of (rev (zip ks vs))"

section \<open>Analysis of the range predicates\<close>

subsection \<open>What the loops write\<close>

text \<open>
  A loop whose body appends pieces to the buffer appends their concatenation. The pieces
  written by \<^verbatim>\<open>buildCompareClause\<close> for the column \<open>i\<close> are \<open>altPieces\<close>.
\<close>

lemma forRange_pieces:
  "(\<And>i s. i \<in> set is \<Longrightarrow> body i s = Some (s @ f i)) \<Longrightarrow>
   forRange is body s = Some (s @ concat (map f is))"
  by (induction "is" arbitrary: s) auto

definition eqAndPieces :: "string list \<Rightarrow> string list \<Rightarrow> nat \<Rightarrow> piece list" where
  "eqAndPieces cols bound j = [Arg (cols ! j), Txt [equal_c], Arg (bound ! j), Txt '' and '']"

definition lastPieces :: "string list \<Rightarrow> string list \<Rightarrow> char \<Rightarrow> bool \<Rightarrow> nat \<Rightarrow> piece list" where
  "lastPieces cols bound cmp we i =
     [Arg (cols ! i), Txt [cmp]] @ (if we \<and> Suc i = length cols then [Txt [equal_c]] else [])
     @ [Arg (bound ! i)]"

definition altPieces :: "string list \<Rightarrow> string list \<Rightarrow> char \<Rightarrow> bool \<Rightarrow> nat \<Rightarrow> piece list" where
  "altPieces cols bound cmp we i =
     (if i > 0 then [Txt ''or(''] else []) @ concat (map (eqAndPieces cols bound) [0..<i])
     @ lastPieces cols bound cmp we i
     @ (if i > 0 then [Txt '')''] else if Suc i \<noteq> length cols then [Txt '' ''] else [])"

lemma compareInner_pieces:
  "j < length cols \<Longrightarrow> j < length bound \<Longrightarrow>
   compareInner cols bound j buf = Some (buf @ eqAndPieces cols bound j)"
  by (simp add: compareInner_def idx_def eqAndPieces_def WriteString_def WriteByte_def WriteOperand_def)

lemma compareBody_pieces:
  assumes "i < length cols" "length cols \<le> length bound"
  shows "compareBody cols bound cmp we i buf = Some (buf @ altPieces cols bound cmp we i)"
proof -
  have inner: "forRange [0..<i] (compareInner cols bound) s
      = Some (s @ concat (map (eqAndPieces cols bound) [0..<i]))" for s
    using assms by (intro forRange_pieces compareInner_pieces) auto
  show ?thesis
  proof (cases "i = 0")
    case True
    moreover have "bound \<noteq> []" using assms by auto
    ultimately show ?thesis
      using assms
      by (simp add: compareBody_def idx_def altPieces_def lastPieces_def Let_def
          WriteString_def WriteByte_def WriteOperand_def)
  next
    case False
    then show ?thesis
      using assms
      by (simp add: compareBody_def idx_def inner altPieces_def lastPieces_def Let_def
          WriteString_def WriteByte_def WriteOperand_def)
  qed
qed

lemma buildCompareClause_pieces:
  assumes "length cols \<le> length bound"
  shows "buildCompareClause buf cols bound cmp we
     = Some (buf @ concat (map (altPieces cols bound cmp we) [0..<length cols]))"
  unfolding buildCompareClause_def
  using assms by (intro forRange_pieces compareBody_pieces) auto


subsection \<open>Syntax trees and the parser\<close>

text \<open>
  A syntax tree keeps the parentheses of a search condition; \<open>unparse\<close> is its token
  sequence and \<open>meaning\<close> the condition it stands for. In a well-formed tree the left
  operand of \<^verbatim>\<open>and\<close> is a comparison, \<^verbatim>\<open>false\<close> or a parenthesised tree, its right
  operand and the left operand of \<^verbatim>\<open>or\<close> contain no \<^verbatim>\<open>or\<close> outside parentheses.
  The parser reads the tokens of a well-formed tree as its meaning, with the fuel that
  \<open>parseCond\<close> supplies.
\<close>

datatype cst = SCmp string cmpop string | SFalse | SParen cst | SAnd cst cst | SOr cst cst



primrec isPrim :: "cst \<Rightarrow> bool" where
  "isPrim (SCmp c opr v) = True"
| "isPrim SFalse = True"
| "isPrim (SParen e) = True"
| "isPrim (SAnd a b) = False"
| "isPrim (SOr a b) = False"

primrec isTerm :: "cst \<Rightarrow> bool" where
  "isTerm (SCmp c opr v) = True"
| "isTerm SFalse = True"
| "isTerm (SParen e) = True"
| "isTerm (SAnd a b) = True"
| "isTerm (SOr a b) = False"

primrec wellFormed :: "cst \<Rightarrow> bool" where
  "wellFormed (SCmp c opr v) = True"
| "wellFormed SFalse = True"
| "wellFormed (SParen e) = wellFormed e"
| "wellFormed (SAnd a b) = (isPrim a \<and> wellFormed a \<and> isTerm b \<and> wellFormed b)"
| "wellFormed (SOr a b) = (isTerm a \<and> wellFormed a \<and> wellFormed b)"




declare parseOr.simps [simp del] parseAnd.simps [simp del] parsePrim.simps [simp del]

















subsection \<open>The tree of a comparison clause\<close>

text \<open>
  The tokens that \<^verbatim>\<open>buildCompareClause\<close> writes are those of \<open>compareCst\<close>: one
  alternative per column, which fixes the columns before it to the bound and compares the
  column itself.
\<close>

definition cmpOp :: "char \<Rightarrow> bool \<Rightarrow> cmpop" where
  "cmpOp cmp eq = (if cmp = less_c then (if eq then OpLe else OpLt)
                   else (if eq then OpGe else OpGt))"


definition lastCst :: "string list \<Rightarrow> string list \<Rightarrow> char \<Rightarrow> bool \<Rightarrow> nat \<Rightarrow> cst" where
  "lastCst cols bound cmp we i =
     SCmp (cols ! i) (cmpOp cmp (we \<and> Suc i = length cols)) (bound ! i)"



lemma bufTokens_simps [simp]:
  "bufTokens [] = []"
  "bufTokens (p # ps) = pieceTokens p @ bufTokens ps"
  "bufTokens (a @ b) = bufTokens a @ bufTokens b"
  by (simp_all add: bufTokens_def)


lemma lex_texts [simp]:
  "lexTxt ''or('' = [TOr, TLParen]"
  "lexTxt '' and '' = [TAnd]"
  "lexTxt '' and('' = [TAnd, TLParen]"
  "lexTxt '')'' = [TRParen]"
  "lexTxt ''('' = [TLParen]"
  "lexTxt '' '' = []"
  "lexTxt ''false'' = [TFalse]"
  "lexTxt '')or('' = [TRParen, TOr, TLParen]"
  "lexTxt ''))or('' = [TRParen, TRParen, TOr, TLParen]"
  "lexTxt ''))'' = [TRParen, TRParen]"
  "lexTxt [equal_c] = [TEqual]"
  "lexTxt [less_c] = [TLess]"
  "lexTxt [greater_c] = [TGreater]"
  by (simp_all add: equal_c_def less_c_def greater_c_def)

declare lexTxt.simps [simp del]






lemma wf_lastCst [simp]:
  "wellFormed (lastCst cols bound cmp we i)" "isPrim (lastCst cols bound cmp we i)"
  "isTerm (lastCst cols bound cmp we i)"
  by (simp_all add: lastCst_def)





subsection \<open>The common prefix and the clause between two bounds\<close>

text \<open>
  \<open>cpl\<close> is the length of the common prefix of two lists; for lists of equal length
  \<^verbatim>\<open>getCommonLength\<close> returns it. The pieces and the tree of
  \<^verbatim>\<open>buildBetweenClause\<close> follow its three cases.
\<close>

fun cpl :: "'a list \<Rightarrow> 'a list \<Rightarrow> nat" where
  "cpl (x # xs) (y # ys) = (if x = y then Suc (cpl xs ys) else 0)"
| "cpl xs ys = 0"

lemma cpl_le: "cpl xs ys \<le> length xs"
  by (induction xs ys rule: cpl.induct) auto




lemma cpl_same: "cpl xs xs = length xs"
  by (induction xs) auto

lemma cpl_drop:
  "length xs = length ys \<Longrightarrow> k \<le> length xs \<Longrightarrow> take k xs = take k ys \<Longrightarrow>
   cpl xs ys = k + cpl (drop k xs) (drop k ys)"
proof (induction xs ys arbitrary: k rule: cpl.induct)
  case (1 x xs y ys)
  then show ?case by (cases k) auto
qed auto

lemma commonLoop_cpl:
  assumes "length low = length up"
  shows "k \<le> length low \<Longrightarrow> take k low = take k up \<Longrightarrow>
         commonLoop low up [k..<length low] = Some (cpl low up)"
proof (induction "length low - k" arbitrary: k)
  case 0
  then have k: "k = length low" by simp
  then have "low = up" using 0 assms by simp
  then show ?case using k by (simp add: cpl_same)
next
  case (Suc d)
  then have lt: "k < length low" by simp
  then have upt: "[k..<length low] = k # [Suc k..<length low]" by (simp add: upt_conv_Cons)
  show ?case
  proof (cases "low ! k = up ! k")
    case True
    then have "take (Suc k) low = take (Suc k) up"
      using Suc.prems lt assms by (simp add: take_Suc_conv_app_nth)
    then have "commonLoop low up [Suc k..<length low] = Some (cpl low up)"
      using Suc lt by (intro Suc.hyps(1)) auto
    then show ?thesis using True lt assms unfolding upt by (simp add: idx_def)
  next
    case False
    have "cpl low up = k + cpl (drop k low) (drop k up)"
      using cpl_drop assms Suc.prems by blast
    moreover have "drop k low = low ! k # drop (Suc k) low" "drop k up = up ! k # drop (Suc k) up"
      using lt assms by (simp_all add: Cons_nth_drop_Suc)
    then have "cpl (drop k low) (drop k up) = 0"
      using False by simp
    ultimately show ?thesis using False lt assms unfolding upt by (simp add: idx_def)
  qed
qed

lemma getCommonLength_cpl:
  "length low = length up \<Longrightarrow> getCommonLength low up = Some (cpl low up)"
  unfolding getCommonLength_def using commonLoop_cpl[of low up 0] by simp

definition singlePieces :: "string list \<Rightarrow> string list \<Rightarrow> string list \<Rightarrow> bool \<Rightarrow> piece list" where
  "singlePieces cols low up we =
     [Arg (cols ! 0), Txt [greater_c]] @ (if we then [Txt [equal_c]] else [])
     @ [Arg (low ! 0), Txt '' and '', Arg (cols ! 0), Txt [less_c], Arg (up ! 0)]"

definition comparePieces :: "string list \<Rightarrow> string list \<Rightarrow> char \<Rightarrow> bool \<Rightarrow> piece list" where
  "comparePieces cols bound cmp we = concat (map (altPieces cols bound cmp we) [0..<length cols])"

definition restPieces :: "string list \<Rightarrow> string list \<Rightarrow> string list \<Rightarrow> piece list" where
  "restPieces cols low up =
     (if length cols = 1 then singlePieces cols low up True
      else [Txt ''(''] @ singlePieces cols low up False
        @ [Txt '')or('', Arg (cols ! 0), Txt [equal_c], Arg (low ! 0), Txt '' and('']
        @ comparePieces (tl cols) (tl low) greater_c True
        @ [Txt ''))or('', Arg (cols ! 0), Txt [equal_c], Arg (up ! 0), Txt '' and('']
        @ comparePieces (tl cols) (tl up) less_c False
        @ [Txt ''))''])"

definition prefixPieces :: "string list \<Rightarrow> string list \<Rightarrow> nat \<Rightarrow> piece list" where
  "prefixPieces cols low i =
     (if i > 0 then [Txt '' and ''] else []) @ [Arg (cols ! i), Txt [equal_c], Arg (low ! i)]"

definition betweenPieces :: "string list \<Rightarrow> string list \<Rightarrow> string list \<Rightarrow> piece list" where
  "betweenPieces cols low up =
     (if cpl low up > 0 then
        if cpl low up = length low then [Txt ''false'']
        else concat (map (prefixPieces cols low) [0..<cpl low up]) @ [Txt '' and('']
          @ restPieces (drop (cpl low up) cols) (drop (cpl low up) low) (drop (cpl low up) up)
          @ [Txt '')'']
      else restPieces cols low up)"

lemma singleBetween_pieces:
  "cols \<noteq> [] \<Longrightarrow> low \<noteq> [] \<Longrightarrow> up \<noteq> [] \<Longrightarrow>
   singleBetween buf cols low up we = Some (buf @ singlePieces cols low up we)"
  by (simp add: singleBetween_def singlePieces_def idx_def Let_def
      WriteString_def WriteByte_def WriteOperand_def)

lemma buildCompareClause_comparePieces:
  "length cols \<le> length bound \<Longrightarrow>
   buildCompareClause buf cols bound cmp we = Some (buf @ comparePieces cols bound cmp we)"
  by (simp add: buildCompareClause_pieces comparePieces_def)

lemma betweenRest_pieces:
  assumes "cols \<noteq> []" "length cols \<le> length low" "length cols \<le> length up"
  shows "betweenRest buf cols low up = Some (buf @ restPieces cols low up)"
proof (cases "length cols = 1")
  case True
  then show ?thesis
    using assms by (simp add: betweenRest_def restPieces_def singleBetween_pieces length_greater_0_conv[symmetric] del: length_greater_0_conv)
next
  case False
  have ne: "low \<noteq> []" "up \<noteq> []" using assms by auto
  have l1: "length (tl cols) \<le> length (tl low)" "length (tl cols) \<le> length (tl up)"
    using assms by auto
  show ?thesis
    using False assms ne
    by (simp add: betweenRest_def restPieces_def singleBetween_pieces idx_def sliceFrom_def
        Let_def drop_Suc buildCompareClause_comparePieces[OF l1(1)] buildCompareClause_comparePieces[OF l1(2)]
        WriteString_def WriteByte_def WriteOperand_def Suc_le_eq)
qed

lemma prefixBody_pieces:
  "i < length cols \<Longrightarrow> i < length low \<Longrightarrow>
   prefixBody cols low i buf = Some (buf @ prefixPieces cols low i)"
  by (simp add: prefixBody_def prefixPieces_def idx_def WriteString_def WriteByte_def WriteOperand_def)

lemma buildBetweenClause_pieces:
  assumes "cols \<noteq> []" "length low = length cols" "length up = length cols"
  shows "buildBetweenClause buf cols low up = Some (buf @ betweenPieces cols low up)"
proof -
  let ?c = "cpl low up"
  have c: "getCommonLength low up = Some ?c"
    using assms by (simp add: getCommonLength_cpl)
  have cle: "?c \<le> length low" by (rule cpl_le)
  show ?thesis
  proof (cases "?c = 0")
    case True
    then show ?thesis
      using assms by (simp add: buildBetweenClause_def c betweenPieces_def betweenRest_pieces)
  next
    case pos: False
    show ?thesis
    proof (cases "?c = length low")
      case True
      then show ?thesis
        using pos by (simp add: buildBetweenClause_def c betweenPieces_def WriteString_def)
    next
      case False
      then have lt: "?c < length cols" using cle assms by simp
      have pre: "forRange [0..<?c] (prefixBody cols low) buf
          = Some (buf @ concat (map (prefixPieces cols low) [0..<?c]))"
        using lt assms by (intro forRange_pieces prefixBody_pieces) auto
      have rest: "betweenRest b (drop ?c cols) (drop ?c low) (drop ?c up)
          = Some (b @ restPieces (drop ?c cols) (drop ?c low) (drop ?c up))" for b
        using lt assms by (intro betweenRest_pieces) auto
      show ?thesis
        using pos False lt assms
        by (simp add: buildBetweenClause_def c betweenPieces_def pre rest sliceFrom_def
            WriteString_def WriteByte_def)
    qed
  qed
qed















subsection \<open>Lexicographic order by positions\<close>
















subsection \<open>Intervals of a sorted boundary list\<close>








definition whereBufs :: "string list \<Rightarrow> string list list \<Rightarrow> Buffer list" where
  "whereBufs q vals =
     comparePieces q (vals ! 0) less_c False
     # map (\<lambda>i. betweenPieces q (vals ! (i - 1)) (vals ! i)) [1..<length vals]
     @ [comparePieces q (vals ! (length vals - 1)) greater_c True]"

lemma betweenStep_pieces:
  assumes "q \<noteq> []" "\<forall>t\<in>set vals. length t = length q" "0 < i" "i < length vals"
  shows "betweenStep q vals i wh = Some (wh @ [betweenPieces q (vals ! (i - 1)) (vals ! i)])"
proof -
  have "vals ! (i - 1) \<in> set vals" "vals ! i \<in> set vals"
    using assms(3,4) by simp_all
  then have l: "length (vals ! (i - 1)) = length q" "length (vals ! i) = length q"
    using assms(2) by blast+
  have i1: "idx vals (i - 1) = Some (vals ! (i - 1))" "idx vals i = Some (vals ! i)"
    using assms(3,4) by (simp_all add: idx_def)
  show ?thesis
    unfolding betweenStep_def i1 by (simp add: buildBetweenClause_pieces[OF assms(1) l, unfolded One_nat_def])
qed

lemma buildWhereBufs_eq:
  assumes "cols \<noteq> []" "vals \<noteq> []" "\<forall>t\<in>set vals. length t = length cols"
  shows "buildWhereBufs cols vals = Some (whereBufs (map quoteCol cols) vals)"
proof -
  let ?q = "map quoteCol cols"
  have q: "?q \<noteq> []" "\<forall>t\<in>set vals. length t = length ?q" using assms by auto
  have first: "length ?q \<le> length (vals ! 0)" and last: "length ?q \<le> length (vals ! (length vals - 1))"
    using assms by auto
  have loop: "forRange [1..<length vals] (betweenStep ?q vals) wh
      = Some (wh @ concat (map (\<lambda>i. [betweenPieces ?q (vals ! (i - 1)) (vals ! i)]) [1..<length vals]))" for wh
  proof (rule forRange_pieces)
    fix i s assume "i \<in> set [1..<length vals]"
    then have "0 < i" "i < length vals" by auto
    then show "betweenStep ?q vals i s = Some (s @ [betweenPieces ?q (vals ! (i - 1)) (vals ! i)])"
      using q by (intro betweenStep_pieces)
  qed
  have cc: "concat (map (\<lambda>i. [f i]) xs) = map f xs" for f :: "nat \<Rightarrow> Buffer" and xs
    by (induction xs) auto
  show ?thesis
    using assms
    by (simp add: buildWhereBufs_def Let_def idx_def whereBufs_def loop[unfolded One_nat_def] cc
        buildCompareClause_comparePieces[OF first, of "[]", simplified]
        buildCompareClause_comparePieces[OF last, of "[]", simplified])
qed







section \<open>Analysis of the result-set functions\<close>

text \<open>
  The records that the loop of \<^verbatim>\<open>GetSpecifiedColumnValuesAndClose\<close> scans: those
  delivered before the first record whose scan fails.
\<close>

fun scannedRows :: "(string + 'a) list \<Rightarrow> 'a list" where
  "scannedRows (Inr v # rest) = v # scannedRows rest"
| "scannedRows recs = []"

lemma dom_inner_fold:
  "dom (fold (\<lambda>j mp'. if P j then mp'(i \<mapsto> j) else mp') js mp)
     = dom mp \<union> (if \<exists>j\<in>set js. P j then {i} else {})"
  by (induction js arbitrary: mp) auto

lemma dom_outer_fold:
  "dom (fold (\<lambda>i mp. fold (\<lambda>j mp'. if P i j then mp'(i \<mapsto> j) else mp') js mp) ks mp0)
     = dom mp0 \<union> {i \<in> set ks. \<exists>j\<in>set js. P i j}"
  by (induction ks arbitrary: mp0) (auto simp: dom_inner_fold)

lemma dom_fieldIndexMap:
  "dom (fieldIndexMap ToUpper columns columnName)
     = {i. i < length columns \<and> ToUpper (columns ! i) \<in> set columnName}"
proof -
  have "(\<exists>j\<in>set [0..<length columnName]. ToUpper (columns ! i) = columnName ! j)
      = (ToUpper (columns ! i) \<in> set columnName)" for i
  proof
    assume "\<exists>j\<in>set [0..<length columnName]. ToUpper (columns ! i) = columnName ! j"
    then show "ToUpper (columns ! i) \<in> set columnName" by auto
  next
    assume "ToUpper (columns ! i) \<in> set columnName"
    then obtain j where "j < length columnName" "columnName ! j = ToUpper (columns ! i)"
      by (auto simp: in_set_conv_nth)
    then have "j \<in> set [0..<length columnName]" "ToUpper (columns ! i) = columnName ! j"
      by simp_all
    then show "\<exists>j\<in>set [0..<length columnName]. ToUpper (columns ! i) = columnName ! j"
      by blast
  qed
  then show ?thesis
    unfolding fieldIndexMap_def dom_outer_fold by auto
qed

lemma fold_rowStep:
  "fst (fold (rowStep mp v) ks st) = (fst st \<or> (\<exists>i\<in>set ks. \<exists>j. mp i = Some j \<and> v ! i \<noteq> None))
   \<and> length (snd (fold (rowStep mp v) ks st)) = length (snd st)
   \<and> (\<forall>j<length (snd st). (\<forall>i\<in>set ks. mp i = Some j \<longrightarrow> v ! i = None)
         \<longrightarrow> snd (fold (rowStep mp v) ks st) ! j = snd st ! j)"
proof (induction ks arbitrary: st)
  case Nil
  then show ?case by simp
next
  case (Cons k ks)
  show ?case
  proof (cases "mp k")
    case None
    then have "rowStep mp v k st = st" by (simp add: rowStep_def)
    then show ?thesis using Cons[of st] None by auto
  next
    case (Some j)
    show ?thesis
    proof (cases "v ! k")
      case None
      then have "rowStep mp v k st = st" using Some by (simp add: rowStep_def)
      then show ?thesis using Cons[of st] Some None by auto
    next
      case (Some s)
      then have st': "rowStep mp v k st = (True, (snd st)[j := s])"
        using \<open>mp k = Some j\<close> by (simp add: rowStep_def)
      show ?thesis
        using Cons[of "(True, (snd st)[j := s])"] \<open>mp k = Some j\<close> Some
        by (auto simp: st' nth_list_update)
    qed
  qed
qed

text \<open>
  A column is requested when its name, in upper case, is one of the requested names. A
  record is kept when some requested column of it is not NULL. A result row renders a
  record when it has one text per requested name, and the empty text for every name
  whose columns are all NULL in the record.
\<close>

definition requestedAt :: "(string \<Rightarrow> string) \<Rightarrow> string list \<Rightarrow> string list \<Rightarrow> nat \<Rightarrow> bool" where
  "requestedAt ToUpper columns columnName i
     = (i < length columns \<and> ToUpper (columns ! i) \<in> set columnName)"

definition keptRow :: "(string \<Rightarrow> string) \<Rightarrow> string list \<Rightarrow> string list \<Rightarrow> string option list \<Rightarrow> bool" where
  "keptRow ToUpper columns columnName v
     = (\<exists>i. requestedAt ToUpper columns columnName i \<and> v ! i \<noteq> None)"

definition renders :: "(nat \<rightharpoonup> nat) \<Rightarrow> nat \<Rightarrow> string list \<Rightarrow> string option list \<Rightarrow> bool" where
  "renders mp n out v
     = (length out = n \<and> (\<forall>j<n. (\<forall>i. mp i = Some j \<longrightarrow> v ! i = None) \<longrightarrow> out ! j = ''''))"

lemma scanRows_rows:
  assumes "\<And>r. set (order r) = dom mp"
  shows "\<exists>outs. fst (scanRows mp order n fe r recs strs) = strs @ outs
     \<and> list_all2 (renders mp n) outs
          (filter (\<lambda>v. \<exists>i\<in>dom mp. v ! i \<noteq> None) (scannedRows recs))"
proof (induction recs arbitrary: r strs)
  case Nil
  then show ?case by simp
next
  case (Cons rec recs)
  show ?case
  proof (cases rec)
    case (Inl e)
    then show ?thesis by simp
  next
    case (Inr v)
    let ?st = "fold (rowStep mp v) (order r) (False, replicate n '''')"
    note f = fold_rowStep[of mp v "order r" "(False, replicate n '''')"]
    have w: "fst ?st = (\<exists>i\<in>dom mp. v ! i \<noteq> None)"
      using f assms[of r] by auto
    have rn: "renders mp n (snd ?st) v"
      unfolding renders_def using f assms[of r] by auto
    obtain outs where o: "fst (scanRows mp order n fe (Suc r) recs (if fst ?st then strs @ [snd ?st] else strs))
        = (if fst ?st then strs @ [snd ?st] else strs) @ outs"
      "list_all2 (renders mp n) outs (filter (\<lambda>v. \<exists>i\<in>dom mp. v ! i \<noteq> None) (scannedRows recs))"
      using Cons[of "Suc r" "if fst ?st then strs @ [snd ?st] else strs"] by blast
    show ?thesis
    proof (cases "fst ?st")
      case True
      then show ?thesis
        using o w rn Inr by (intro exI[of _ "snd ?st # outs"]) (simp add: Let_def)
    next
      case False
      then show ?thesis
        using o w Inr by (intro exI[of _ outs]) (simp add: Let_def)
    qed
  qed
qed

text \<open>
  A result of \<^verbatim>\<open>SHOW INDEX\<close> for the examples: a unique index on \<^verbatim>\<open>id\<close>, a row
  of NULLs and a row with a NULL key name.
\<close>

definition sampleIndexRows :: Rows where
  "sampleIndexRows = \<lparr>rowsColumns = Inr [''Table'', ''Non_unique'', ''Key_name'', ''Column_name''],
     rowsRecords = [Inr [Some ''t'', Some ''0'', Some ''uk'', Some ''id''],
                    Inr [Some ''t'', None, None, None],
                    Inr [Some ''t'', Some ''1'', None, Some ''c'']],
     rowsErr = None\<rparr>"

lemma sample_fieldIndexMap:
  "fieldIndexMap asciiUpper [''Table'', ''Non_unique'', ''Key_name'', ''Column_name'']
     [''NON_UNIQUE'', ''KEY_NAME'', ''COLUMN_NAME'']
   = [1 \<mapsto> 0, 2 \<mapsto> 1, 3 \<mapsto> 2]"
  by (simp add: fieldIndexMap_def asciiUpper_def upt_rec[of 0] upt_rec[of 1] upt_rec[of 2] upt_rec[of 3] upt_rec[of 4] numeral_2_eq_2 numeral_3_eq_3)

text \<open>
  \<open>asciiLower\<close> changes letters only (\<open>lowerChar\<close> is what it does to one
  byte), so a text contains the digits 1054 after it exactly when it contains them
  before. \<open>failingConn\<close> is a connection on which every query and statement fails
  with the given message.
\<close>

definition lowerChar :: "char \<Rightarrow> char" where
  "lowerChar c = hd (asciiLower [c])"

lemma asciiLower_Nil: "asciiLower [] = []"
  by (simp add: asciiLower_def)

lemma asciiLower_Cons: "asciiLower (c # cs) = lowerChar c # asciiLower cs"
  by (simp add: asciiLower_def lowerChar_def)

lemma lowerChar_cases:
  "lowerChar c = c
   \<or> (c \<in> set ''ABCDEFGHIJKLMNOPQRSTUVWXYZ'' \<and> lowerChar c \<in> set ''abcdefghijklmnopqrstuvwxyz'')"
proof (cases "map_of (zip ''ABCDEFGHIJKLMNOPQRSTUVWXYZ'' ''abcdefghijklmnopqrstuvwxyz'') c")
  case None
  then have "lowerChar c = c"
    unfolding lowerChar_def asciiLower_def by (simp only: list.map option.case list.sel)
  then show ?thesis by blast
next
  case (Some u)
  then have "(c, u) \<in> set (zip ''ABCDEFGHIJKLMNOPQRSTUVWXYZ'' ''abcdefghijklmnopqrstuvwxyz'')"
    by (rule map_of_SomeD)
  then have "c \<in> set ''ABCDEFGHIJKLMNOPQRSTUVWXYZ''" "u \<in> set ''abcdefghijklmnopqrstuvwxyz''"
    by (rule set_zip_leftD, rule set_zip_rightD)
  moreover have "lowerChar c = u"
    unfolding lowerChar_def asciiLower_def using Some by (simp only: list.map option.case list.sel)
  ultimately show ?thesis by blast
qed

lemma lowerChar_digit:
  assumes "d = CHR ''1'' \<or> d = CHR ''0'' \<or> d = CHR ''5'' \<or> d = CHR ''4''"
  shows "(lowerChar c = d) = (c = d)"
proof -
  have n: "d \<notin> set ''ABCDEFGHIJKLMNOPQRSTUVWXYZ''" "d \<notin> set ''abcdefghijklmnopqrstuvwxyz''"
    using assms by auto
  show ?thesis using lowerChar_cases[of c] lowerChar_cases[of d] n by metis
qed

lemma take_asciiLower_digits:
  "set ds \<subseteq> {CHR ''1'', CHR ''0'', CHR ''5'', CHR ''4''} \<Longrightarrow>
   (take n (asciiLower s) = ds) = (take n s = ds)"
proof (induction s arbitrary: n ds)
  case Nil
  then show ?case by (simp add: asciiLower_Nil)
next
  case (Cons c cs)
  show ?case
  proof (cases n)
    case 0
    then show ?thesis by simp
  next
    case (Suc m)
    show ?thesis
    proof (cases ds)
      case Nil
      then show ?thesis using Suc by (simp add: asciiLower_Cons)
    next
      case (Cons d ds')
      then have d: "d = CHR ''1'' \<or> d = CHR ''0'' \<or> d = CHR ''5'' \<or> d = CHR ''4''"
        and ds': "set ds' \<subseteq> {CHR ''1'', CHR ''0'', CHR ''5'', CHR ''4''}"
        using Cons.prems by auto
      show ?thesis
        unfolding Suc Cons asciiLower_Cons
        by (simp add: lowerChar_digit[OF d] Cons.IH[OF ds'])
    qed
  qed
qed

lemma asciiLower_code_prefix:
  "(take 4 (asciiLower s) = ''1054'') = (take 4 s = ''1054'')"
  by (rule take_asciiLower_digits) simp

lemma Contains_asciiLower: "Contains (asciiLower s) ''1054'' = Contains s ''1054''"
proof (induction s)
  case Nil
  then show ?case by (simp add: asciiLower_Nil)
next
  case (Cons c cs)
  have l: "length ''1054'' = 4" by simp
  have "Contains (asciiLower (c # cs)) ''1054''
      = (take 4 (asciiLower (c # cs)) = ''1054'' \<or> Contains (asciiLower cs) ''1054'')"
    unfolding asciiLower_Cons[of c cs] Contains.simps l ..
  also have "\<dots> = (take 4 (c # cs) = ''1054'' \<or> Contains cs ''1054'')"
    unfolding asciiLower_code_prefix Cons.IH ..
  also have "\<dots> = Contains (c # cs) ''1054''"
    unfolding Contains.simps l ..
  finally show ?case .
qed

definition failingConn :: "string \<Rightarrow> Conn" where
  "failingConn msg = \<lparr>QueryContext = (\<lambda>q. Inl msg), ExecContext = (\<lambda>q. Some msg)\<rparr>"

text \<open>A column matches when its name equals one of the field names up to case.\<close>

definition matchesField :: "(string \<Rightarrow> string \<Rightarrow> bool) \<Rightarrow> string list \<Rightarrow> string list \<Rightarrow> nat \<Rightarrow> bool" where
  "matchesField EqualFold columns fieldNames i
     = (\<exists>fieldName\<in>set fieldNames. EqualFold (columns ! i) fieldName)"

lemma findField_None:
  "(findField E columns names ks = None) = (\<forall>i\<in>set ks. \<not> matchesField E columns names i)"
  by (induction ks) (auto simp: matchesField_def list_ex_iff)

lemma findField_first:
  "matchesField E columns names i \<Longrightarrow> \<forall>k<i. \<not> matchesField E columns names k \<Longrightarrow> i < n \<Longrightarrow>
   findField E columns names [m..<n] = Some i" if "m \<le> i" for m
  using that
proof (induction "i - m" arbitrary: m)
  case 0
  then have "m = i" by simp
  then show ?case using 0 by (simp add: upt_conv_Cons matchesField_def list_ex_iff)
next
  case (Suc d)
  then have lt: "m < i" by simp
  then have "\<not> matchesField E columns names m" using Suc.prems by simp
  moreover have "findField E columns names [Suc m..<n] = Some i"
    using Suc lt by (intro Suc.hyps(1)) auto
  ultimately show ?case using lt Suc.prems by (simp add: upt_conv_Cons matchesField_def list_ex_iff)
qed

text \<open>
  A plan of one record with the column \<^verbatim>\<open>estRows\<close>, and a parser that knows its
  value, for the examples.
\<close>

definition samplePlan :: Conn where
  "samplePlan = \<lparr>QueryContext = (\<lambda>q. Inr \<lparr>rowsColumns = Inr [''id'', ''estRows'', ''task''],
       rowsRecords = [Inr [Some ''tablereader_5'', Some ''10000.00'', Some ''root'']],
       rowsErr = None\<rparr>),
     ExecContext = (\<lambda>q. None)\<rparr>"

definition sampleParseFloat :: "string \<Rightarrow> nat option" where
  "sampleParseFloat s = (if s = ''10000.00'' then Some 10000 else None)"

text \<open>
  The tables to lock, in the order of the table map: the base tables that the block list
  does not name. \<open>lockStatement\<close> is the statement for a list of tables, and the empty
  text for no table.
\<close>

definition blocked :: "(string \<rightharpoonup> (string \<rightharpoonup> 'x)) \<Rightarrow> string \<Rightarrow> string \<Rightarrow> bool" where
  "blocked blockList dbName tableName
     = (\<exists>blockTable. blockList dbName = Some blockTable \<and> blockTable tableName \<noteq> None)"

definition lockEntries ::
  "(string \<times> TableInfo list) list \<Rightarrow> (string \<rightharpoonup> (string \<rightharpoonup> 'x)) \<Rightarrow> (string \<times> string) list" where
  "lockEntries allTables blockList =
     concat (map (\<lambda>(dbName, tables).
        map (\<lambda>t. (dbName, Name t))
          (filter (\<lambda>t. Type t = TableTypeBase \<and> \<not> blocked blockList dbName (Name t)) tables))
        allTables)"

definition lockEntry :: "string \<times> string \<Rightarrow> string" where
  "lockEntry e = ''`'' @ escapeString (fst e) @ ''`.`'' @ escapeString (snd e) @ ''` READ''"

definition lockStatement :: "(string \<times> string) list \<Rightarrow> string" where
  "lockStatement es =
     (case es of
        [] \<Rightarrow> ''''
      | e # rest \<Rightarrow> ''LOCK TABLES '' @ lockEntry e @ concat (map (\<lambda>x. '','' @ lockEntry x) rest))"

definition lockState :: "(string \<times> string) list \<Rightarrow> string \<times> bool" where
  "lockState es = (lockStatement es, es \<noteq> [])"

lemma lockTableStep_state:
  "lockTableStep dbName (escapeString dbName) blockList t (lockState es)
     = lockState (es @ (if Type t = TableTypeBase \<and> \<not> blocked blockList dbName (Name t)
                        then [(dbName, Name t)] else []))"
proof (cases es)
  case Nil
  then show ?thesis
    by (auto simp: lockTableStep_def lockState_def lockStatement_def lockEntry_def blocked_def
        split: option.splits)
next
  case (Cons e rest)
  then show ?thesis
    by (auto simp: lockTableStep_def lockState_def lockStatement_def lockEntry_def blocked_def
        split: option.splits)
qed

lemma fold_lockTableStep:
  "fold (lockTableStep dbName (escapeString dbName) blockList) tables (lockState es)
     = lockState (es @ map (\<lambda>t. (dbName, Name t))
          (filter (\<lambda>t. Type t = TableTypeBase \<and> \<not> blocked blockList dbName (Name t)) tables))"
proof (induction tables arbitrary: es)
  case Nil
  then show ?case by simp
next
  case (Cons t tables)
  show ?case
    unfolding fold_simps lockTableStep_state Cons by simp
qed

lemma fold_lock_dbs:
  "fold (\<lambda>(dbName, tables) st. fold (lockTableStep dbName (escapeString dbName) blockList) tables st)
     allTables (lockState es)
   = lockState (es @ lockEntries allTables blockList)"
proof (induction allTables arbitrary: es)
  case Nil
  then show ?case by (simp add: lockEntries_def)
next
  case (Cons a allTables)
  obtain d ts where a: "a = (d, ts)" by (cases a)
  show ?case
    unfolding a fold_simps prod.case fold_lockTableStep Cons
    by (simp add: lockEntries_def)
qed

text \<open>An index row of the primary key on a column of numeric type.\<close>

definition numericPrimary :: "(string \<rightharpoonup> string) \<Rightarrow> string set \<Rightarrow> string list \<Rightarrow> bool" where
  "numericPrimary colName2Type dataTypeNum oneRow
     = (nullString (colName2Type (oneRow ! 2)) \<in> dataTypeNum \<and> oneRow ! 1 = ''PRIMARY'')"

lemma numericIndexLoop_result:
  "numericIndexLoop colName2Type dataTypeNum results ''''
     = (case find (numericPrimary colName2Type dataTypeNum) results of
          None \<Rightarrow> '''' | Some oneRow \<Rightarrow> oneRow ! 2)"
  by (induction results) (auto simp: numericPrimary_def Let_def)

text \<open>
  A table \<^verbatim>\<open>test.t\<close> with the numeric column \<^verbatim>\<open>id\<close>, and two connections that
  answer \<^verbatim>\<open>SHOW INDEX\<close>: with a unique index on \<^verbatim>\<open>id\<close>, and with the primary
  key on \<^verbatim>\<open>id\<close>.
\<close>

definition uniqueKeyTable :: TableMeta where
  "uniqueKeyTable = \<lparr>DatabaseName = ''test'', TableName = ''t'', ColumnNames = [''id'', ''c''],
     ColumnTypes = [''INT'', ''VARCHAR''], HasImplicitRowID = False\<rparr>"

definition uniqueKeyConn :: Conn where
  "uniqueKeyConn = \<lparr>QueryContext = (\<lambda>q. Inr \<lparr>
       rowsColumns = Inr [''Table'', ''Non_unique'', ''Key_name'', ''Column_name''],
       rowsRecords = [Inr [Some ''t'', Some ''0'', Some ''uk'', Some ''id'']],
       rowsErr = None\<rparr>),
     ExecContext = (\<lambda>q. None)\<rparr>"

definition primaryKeyConn :: Conn where
  "primaryKeyConn = \<lparr>QueryContext = (\<lambda>q. Inr \<lparr>
       rowsColumns = Inr [''Table'', ''Non_unique'', ''Key_name'', ''Column_name''],
       rowsRecords = [Inr [Some ''t'', Some ''0'', Some ''PRIMARY'', Some ''id'']],
       rowsErr = None\<rparr>),
     ExecContext = (\<lambda>q. None)\<rparr>"

section \<open>The claims about the range predicates\<close>

text \<open>
  A sample denotation for the examples: a bound text denotes the list of its byte values,
  ordered lexicographically (a binary collation). It is injective.
\<close>

definition byteOrder :: "string \<Rightarrow> nat list" where
  "byteOrder s = map of_char s"


lemma bufString_simps:
  "bufString [] = []"
  "bufString (Txt s # ps) = s @ bufString ps"
  "bufString (Arg s # ps) = s @ bufString ps"
  by (simp_all add: bufString_def)

text \<open>
  The expectations of the package's test of \<^verbatim>\<open>buildWhereClauses\<close> for one, two and
  three ordering columns, and the predicates of the second example evaluated at the row
  with \<open>a = 1\<close> and \<open>b = 3\<close>.
\<close>

lemma buildWhereClauses_examples:
  "buildWhereClauses [''a''] [[''1''], [''2''], [''3'']]
     = Some [''`a`<1'', ''`a`>=1 and `a`<2'', ''`a`>=2 and `a`<3'', ''`a`>=3'']"
  "buildWhereClauses [''a'', ''b''] [[''1'', ''2''], [''3'', ''4''], [''5'', ''6'']]
     = Some [''`a`<1 or(`a`=1 and `b`<2)'',
             ''(`a`>1 and `a`<3)or(`a`=1 and(`b`>=2))or(`a`=3 and(`b`<4))'',
             ''(`a`>3 and `a`<5)or(`a`=3 and(`b`>=4))or(`a`=5 and(`b`<6))'',
             ''`a`>5 or(`a`=5 and `b`>=6)'']"
  "buildWhereClauses [''a'', ''b'', ''c''] [[''1'', ''2'', ''3''], [''1'', ''4'', ''5'']]
     = Some [''`a`<1 or(`a`=1 and `b`<2)or(`a`=1 and `b`=2 and `c`<3)'',
             ''`a`=1 and((`b`>2 and `b`<4)or(`b`=2 and(`c`>=3))or(`b`=4 and(`c`<5)))'',
             ''`a`>1 or(`a`=1 and `b`>4)or(`a`=1 and `b`=4 and `c`>=5)'']"
  "buildWhereClauses [''a'', ''b'', ''c''] [[''1'', ''2'', ''3''], [''1'', ''2'', ''8'']]
     = Some [''`a`<1 or(`a`=1 and `b`<2)or(`a`=1 and `b`=2 and `c`<3)'',
             ''`a`=1 and `b`=2 and(`c`>=3 and `c`<8)'',
             ''`a`>1 or(`a`=1 and `b`>2)or(`a`=1 and `b`=2 and `c`>=8)'']"
  "map_option (map (selects (\<lambda>c. if c = ''`a`'' then byteOrder ''1'' else byteOrder ''3'') byteOrder))
     (buildWhereBufs [''a'', ''b''] [[''1'', ''2''], [''3'', ''4''], [''5'', ''6'']])
     = Some [Some False, Some True, Some False, Some False]"
  by code_simp+











lemma single_column_bufs:
  "buildWhereBufs [col] [[v]] = Some (whereBufs [quoteCol col] [[v]])"
  using buildWhereBufs_eq[of "[col]" "[[v]]"] by simp

lemma single_column_texts:
  "map bufString (whereBufs [quoteCol col] [[v]])
     = [quoteCol col @ ''<'' @ v, quoteCol col @ ''>='' @ v]"
  by (simp add: whereBufs_def comparePieces_def altPieces_def lastPieces_def bufString_simps
      less_c_def greater_c_def equal_c_def)

text \<open>
  Claim C3, as stated: the predicates for the column \<^verbatim>\<open>col\<close> and the boundary 1 are
  not the texts without quotation.
\<close>

theorem buildWhereClauses_single_counterexample:
  "buildWhereClauses [''col''] [[''1'']] \<noteq> Some [''col<1'', ''col>=1'']"
proof -
  have "buildWhereClauses [''col''] [[''1'']]
      = Some [quoteCol ''col'' @ ''<1'', quoteCol ''col'' @ ''>=1'']"
    by (simp add: buildWhereClauses_def single_column_bufs single_column_texts)
  then show ?thesis by (simp add: quoteCol_def)
qed

text \<open>
  Claim C3, amended. For one ordering column and one boundary tuple of one value, the
  result is exactly two predicates: the column name in backticks (with every backtick of
  the name doubled), \<^verbatim>\<open><\<close> and the value, then the quoted name, \<^verbatim>\<open>>=\<close> and
  the value.
\<close>

theorem buildWhereClauses_single:
  "buildWhereClauses [col] [[v]] = Some [quoteCol col @ ''<'' @ v, quoteCol col @ ''>='' @ v]
   \<and> buildWhereClauses [''col''] [[''1'']]
       = Some [''`col`<1'', ''`col`>=1'']"
proof -
  have g: "buildWhereClauses [c] [[w]] = Some [quoteCol c @ ''<'' @ w, quoteCol c @ ''>='' @ w]"
    for c w
    by (simp add: buildWhereClauses_def single_column_bufs single_column_texts)
  have "quoteCol ''col'' = ''`col`''"
    by (simp add: quoteCol_def escapeString_def)
  then show ?thesis using g[of col v] g[of "''col''" "''1''"] by simp
qed

text \<open>
  Claim C9. With no ordering column or no boundary tuple, \<^verbatim>\<open>buildWhereClauses\<close>
  returns no predicate at all.
\<close>

theorem buildWhereClauses_empty:
  "buildWhereClauses [] handleVals = Some [] \<and> buildWhereClauses handleColNames [] = Some []"
  by (simp add: buildWhereClauses_def buildWhereBufs_def)

section \<open>The claims about the database functions\<close>

text \<open>
  Claim C10. With a \<^verbatim>\<open>nil\<close> handle the result is empty and there is no error.
  Otherwise, with the column names read and whatever order the map ranges take, the
  result lists, in order, one row for every scanned record in which some requested
  column is not NULL, and no row for the others; a row has one text per requested name,
  and the text is empty when every column mapped to that name is NULL in the record.
\<close>

theorem GetSpecifiedColumnValuesAndClose_rows:
  assumes "rowsColumns rs = Inr columns"
    and "\<forall>r. set (order r) = dom (fieldIndexMap ToUpper columns columnName)"
  shows "GetSpecifiedColumnValuesAndClose ToUpper order None columnName = ([], None)
     \<and> dom (fieldIndexMap ToUpper columns columnName)
         = {i. requestedAt ToUpper columns columnName i}
     \<and> list_all2 (renders (fieldIndexMap ToUpper columns columnName) (length columnName))
         (fst (GetSpecifiedColumnValuesAndClose ToUpper order (Some rs) columnName))
         (filter (keptRow ToUpper columns columnName) (scannedRows (rowsRecords rs)))"
proof -
  let ?mp = "fieldIndexMap ToUpper columns columnName"
  have d: "dom ?mp = {i. requestedAt ToUpper columns columnName i}"
    by (simp add: dom_fieldIndexMap requestedAt_def)
  have k: "(\<lambda>v. \<exists>i\<in>dom ?mp. v ! i \<noteq> None) = keptRow ToUpper columns columnName"
    unfolding d keptRow_def by auto
  have 3: "list_all2 (renders ?mp (length columnName))
         (fst (GetSpecifiedColumnValuesAndClose ToUpper order (Some rs) columnName))
         (filter (keptRow ToUpper columns columnName) (scannedRows (rowsRecords rs)))"
  proof (cases "?mp = Map.empty")
    case True
    then have "dom ?mp = {}" by simp
    then have "filter (keptRow ToUpper columns columnName) (scannedRows (rowsRecords rs)) = []"
      unfolding k[symmetric] by simp
    then show ?thesis using True assms(1) by (simp add: GetSpecifiedColumnValuesAndClose_def)
  next
    case False
    obtain outs where "fst (scanRows ?mp order (length columnName) (rowsErr rs) 0 (rowsRecords rs) []) = [] @ outs"
      "list_all2 (renders ?mp (length columnName)) outs
          (filter (\<lambda>v. \<exists>i\<in>dom ?mp. v ! i \<noteq> None) (scannedRows (rowsRecords rs)))"
      using scanRows_rows[of order ?mp "length columnName" "rowsErr rs" 0 "rowsRecords rs" "[]"] assms(2)
      by blast
    then show ?thesis
      using False assms(1) unfolding k by (simp add: GetSpecifiedColumnValuesAndClose_def Let_def)
  qed
  show ?thesis using d 3 by (simp add: GetSpecifiedColumnValuesAndClose_def)
qed

theorem GetSpecifiedColumnValuesAndClose_rows_witness:
  "GetSpecifiedColumnValuesAndClose asciiUpper (\<lambda>r. [3, 1, 2]) None
       [''NON_UNIQUE'', ''KEY_NAME'', ''COLUMN_NAME''] = ([], None)
   \<and> GetSpecifiedColumnValuesAndClose asciiUpper (\<lambda>r. [3, 1, 2]) (Some sampleIndexRows)
       [''NON_UNIQUE'', ''KEY_NAME'', ''COLUMN_NAME'']
     = ([[''0'', ''uk'', ''id''], [''1'', '''', ''c'']], None)
   \<and> list_all2 (renders (fieldIndexMap asciiUpper [''Table'', ''Non_unique'', ''Key_name'', ''Column_name'']
                  [''NON_UNIQUE'', ''KEY_NAME'', ''COLUMN_NAME''])
                  (length [''NON_UNIQUE'', ''KEY_NAME'', ''COLUMN_NAME'']))
       [[''0'', ''uk'', ''id''], [''1'', '''', ''c'']]
       (filter (keptRow asciiUpper [''Table'', ''Non_unique'', ''Key_name'', ''Column_name'']
                  [''NON_UNIQUE'', ''KEY_NAME'', ''COLUMN_NAME''])
          (scannedRows (rowsRecords sampleIndexRows)))"
proof -
  let ?cols = "[''Table'', ''Non_unique'', ''Key_name'', ''Column_name'']"
  let ?names = "[''NON_UNIQUE'', ''KEY_NAME'', ''COLUMN_NAME'']"
  have h1: "rowsColumns sampleIndexRows = Inr ?cols" by (simp add: sampleIndexRows_def)
  have h2: "\<forall>r. set ((\<lambda>r. [3, 1, 2]) r) = dom (fieldIndexMap asciiUpper ?cols ?names)"
    unfolding sample_fieldIndexMap by auto
  have e: "GetSpecifiedColumnValuesAndClose asciiUpper (\<lambda>r. [3, 1, 2]) (Some sampleIndexRows) ?names
     = ([[''0'', ''uk'', ''id''], [''1'', '''', ''c'']], None)"
    unfolding GetSpecifiedColumnValuesAndClose_def
    by (simp add: h1 sample_fieldIndexMap sampleIndexRows_def rowStep_def Let_def)
  from GetSpecifiedColumnValuesAndClose_rows[OF h1 h2] e
  show ?thesis by simp
qed

text \<open>
  Claim C6, as stated: the server's error 1146, that the table does not exist, is not of
  the column-not-found class, yet for the table \<^verbatim>\<open>t1054\<close> its message contains
  the digits 1054, and \<^verbatim>\<open>SelectTiDBRowID\<close> returns false with no error, not
  the annotated error.
\<close>

theorem SelectTiDBRowID_counterexample:
  "SelectTiDBRowID asciiLower (failingConn ''Error 1146: Table 'test.t1054' doesn't exist'')
       ''test'' ''t1054'' = (False, None)
   \<and> SelectTiDBRowID asciiLower (failingConn ''Error 1146: Table 'test.t1054' doesn't exist'')
       ''test'' ''t1054''
     \<noteq> (False, Some (Annotate ''sql: SELECT _tidb_rowid from `test`.`t1054` LIMIT 0''
                        (Plain ''Error 1146: Table 'test.t1054' doesn't exist'')))"
  by (simp add: SelectTiDBRowID_def failingConn_def Contains_asciiLower errBadFieldCode_def)

text \<open>
  Claim C6, amended. \<^verbatim>\<open>SelectTiDBRowID\<close> returns true and no error when the probe
  succeeds; false and no error when the probe fails with an error whose message, in lower
  case, contains the digits 1054 (the number of the column-not-found error), whatever the
  class of the error; and false with the error annotated with the text of the probing
  query for any other error. With the lowering of ASCII letters for
  \<^verbatim>\<open>strings.ToLower\<close>, the test is whether the message itself contains the digits.
\<close>

theorem SelectTiDBRowID_spec:
  "(ExecContext db (tiDBRowIDQuery database table) = None
      \<longrightarrow> SelectTiDBRowID ToLower db database table = (True, None))
   \<and> (\<forall>err. ExecContext db (tiDBRowIDQuery database table) = Some err
          \<and> Contains (ToLower err) ''1054''
      \<longrightarrow> SelectTiDBRowID ToLower db database table = (False, None))
   \<and> (\<forall>err. ExecContext db (tiDBRowIDQuery database table) = Some err
          \<and> \<not> Contains (ToLower err) ''1054''
      \<longrightarrow> SelectTiDBRowID ToLower db database table
          = (False, Some (Annotate (''sql: '' @ tiDBRowIDQuery database table) (Plain err))))
   \<and> (\<forall>err. ExecContext db (tiDBRowIDQuery database table) = Some err
      \<longrightarrow> SelectTiDBRowID asciiLower db database table
          = (if Contains err ''1054'' then (False, None)
             else (False, Some (Annotate (''sql: '' @ tiDBRowIDQuery database table) (Plain err)))))"
  by (simp add: SelectTiDBRowID_def errBadFieldCode_def Contains_asciiLower)

theorem SelectTiDBRowID_spec_witness:
  "SelectTiDBRowID asciiLower \<lparr>QueryContext = (\<lambda>q. Inl ''no query''), ExecContext = (\<lambda>q. None)\<rparr>
       ''test'' ''t'' = (True, None)
   \<and> SelectTiDBRowID asciiLower
       \<lparr>QueryContext = (\<lambda>q. Inl ''no query''),
        ExecContext = (\<lambda>q. Some ''ERROR 1054 (42S22): Unknown column'')\<rparr>
       ''test'' ''t'' = (False, None)
   \<and> SelectTiDBRowID asciiLower
       \<lparr>QueryContext = (\<lambda>q. Inl ''no query''), ExecContext = (\<lambda>q. Some ''mock error'')\<rparr>
       ''test'' ''t''
     = (False, Some (Annotate ''sql: SELECT _tidb_rowid from `test`.`t` LIMIT 0''
                       (Plain ''mock error'')))"
proof -
  let ?ok = "\<lparr>QueryContext = (\<lambda>q. Inl ''no query''), ExecContext = (\<lambda>q. None)\<rparr>"
  let ?bad = "\<lparr>QueryContext = (\<lambda>q. Inl ''no query''),
        ExecContext = (\<lambda>q. Some ''ERROR 1054 (42S22): Unknown column'')\<rparr>"
  let ?mock = "\<lparr>QueryContext = (\<lambda>q. Inl ''no query''), ExecContext = (\<lambda>q. Some ''mock error'')\<rparr>"
  have c1: "Contains (asciiLower ''ERROR 1054 (42S22): Unknown column'') ''1054''"
    by (simp add: asciiLower_def)
  have c2: "\<not> Contains (asciiLower ''mock error'') ''1054''"
    by (simp add: asciiLower_def)
  have q: "tiDBRowIDQuery ''test'' ''t'' = ''SELECT _tidb_rowid from `test`.`t` LIMIT 0''"
    by (simp add: tiDBRowIDQuery_def escapeString_def)
  from SelectTiDBRowID_spec[of ?ok "''test''" "''t''" asciiLower]
    SelectTiDBRowID_spec[of ?bad "''test''" "''t''" asciiLower]
    SelectTiDBRowID_spec[of ?mock "''test''" "''t''" asciiLower] c1 c2 q
  show ?thesis by simp
qed

text \<open>
  Claim C7. \<^verbatim>\<open>detectEstimateRows\<close> returns 0 when the query fails; with a first
  record, it takes the first column whose name matches one of the field names, parses its
  text as a float and converts it to an unsigned integer, and returns 0 when the text does
  not parse; it returns 0 when no column matches, when there is no record, when the scan
  or the reading of the column names fails. \<^verbatim>\<open>estimateCount\<close> calls it with the field
  names rows, estRows and count.
\<close>

theorem detectEstimateRows_spec:
  "(\<forall>err. QueryContext db query = Inl err
       \<longrightarrow> detectEstimateRows EqualFold ParseFloat toUint64 db query fieldNames = 0)
   \<and> (\<forall>rows columns oneRow rest i.
         QueryContext db query = Inr rows \<and> rowsColumns rows = Inr columns
         \<and> rowsRecords rows = Inr oneRow # rest
         \<and> i < length columns \<and> matchesField EqualFold columns fieldNames i
         \<and> (\<forall>k<i. \<not> matchesField EqualFold columns fieldNames k)
       \<longrightarrow> detectEstimateRows EqualFold ParseFloat toUint64 db query fieldNames
           = (case ParseFloat (nullString (oneRow ! i)) of None \<Rightarrow> 0 | Some f \<Rightarrow> toUint64 f))
   \<and> (\<forall>rows columns.
         QueryContext db query = Inr rows \<and> rowsColumns rows = Inr columns
         \<and> (\<forall>i<length columns. \<not> matchesField EqualFold columns fieldNames i)
       \<longrightarrow> detectEstimateRows EqualFold ParseFloat toUint64 db query fieldNames = 0)
   \<and> (\<forall>rows. QueryContext db query = Inr rows
         \<and> (rowsRecords rows = [] \<or> (\<exists>err rest. rowsRecords rows = Inl err # rest)
             \<or> (\<exists>err. rowsColumns rows = Inl err))
       \<longrightarrow> detectEstimateRows EqualFold ParseFloat toUint64 db query fieldNames = 0)
   \<and> estimateCount EqualFold ParseFloat toUint64 TrimSpace dbName tableName db field confWhere
       = detectEstimateRows EqualFold ParseFloat toUint64 db
           (estimateQuery TrimSpace dbName tableName field confWhere)
           [''rows'', ''estRows'', ''count'']"
proof (intro conjI allI impI)
  fix err assume "QueryContext db query = Inl err"
  then show "detectEstimateRows EqualFold ParseFloat toUint64 db query fieldNames = 0"
    by (simp add: detectEstimateRows_def)
next
  fix rows columns oneRow rest i
  assume a: "QueryContext db query = Inr rows \<and> rowsColumns rows = Inr columns
         \<and> rowsRecords rows = Inr oneRow # rest
         \<and> i < length columns \<and> matchesField EqualFold columns fieldNames i
         \<and> (\<forall>k<i. \<not> matchesField EqualFold columns fieldNames k)"
  then have "findField EqualFold columns fieldNames [0..<length columns] = Some i"
    by (intro findField_first) auto
  then show "detectEstimateRows EqualFold ParseFloat toUint64 db query fieldNames
           = (case ParseFloat (nullString (oneRow ! i)) of None \<Rightarrow> 0 | Some f \<Rightarrow> toUint64 f)"
    using a by (simp add: detectEstimateRows_def Let_def)
next
  fix rows columns
  assume a: "QueryContext db query = Inr rows \<and> rowsColumns rows = Inr columns
         \<and> (\<forall>i<length columns. \<not> matchesField EqualFold columns fieldNames i)"
  then have "findField EqualFold columns fieldNames [0..<length columns] = None"
    by (simp add: findField_None)
  then show "detectEstimateRows EqualFold ParseFloat toUint64 db query fieldNames = 0"
    using a by (simp add: detectEstimateRows_def Let_def split: list.splits sum.splits)
next
  fix rows
  assume a: "QueryContext db query = Inr rows
         \<and> (rowsRecords rows = [] \<or> (\<exists>err rest. rowsRecords rows = Inl err # rest)
             \<or> (\<exists>err. rowsColumns rows = Inl err))"
  then show "detectEstimateRows EqualFold ParseFloat toUint64 db query fieldNames = 0"
    by (auto simp: detectEstimateRows_def Let_def split: sum.splits option.splits)
next
  show "estimateCount EqualFold ParseFloat toUint64 TrimSpace dbName tableName db field confWhere
       = detectEstimateRows EqualFold ParseFloat toUint64 db
           (estimateQuery TrimSpace dbName tableName field confWhere)
           [''rows'', ''estRows'', ''count'']"
    by (simp add: estimateCount_def Let_def word_gt_0)
qed

theorem detectEstimateRows_spec_witness:
  "detectEstimateRows asciiEqualFold sampleParseFloat of_nat samplePlan ''EXPLAIN SELECT * FROM `d`.`t`''
      [''rows'', ''estRows'', ''count''] = 10000
   \<and> detectEstimateRows asciiEqualFold sampleParseFloat of_nat
      \<lparr>QueryContext = (\<lambda>q. Inl ''mock error''), ExecContext = (\<lambda>q. None)\<rparr>
      ''EXPLAIN SELECT * FROM `d`.`t`'' [''rows'', ''estRows'', ''count''] = 0"
proof -
  let ?names = "[''rows'', ''estRows'', ''count'']"
  let ?cols = "[''id'', ''estRows'', ''task'']"
  let ?q = "''EXPLAIN SELECT * FROM `d`.`t`''"
  let ?rows = "\<lparr>rowsColumns = Inr ?cols,
       rowsRecords = [Inr [Some ''tablereader_5'', Some ''10000.00'', Some ''root'']],
       rowsErr = None\<rparr>"
  have m1: "matchesField asciiEqualFold ?cols ?names 1"
    by (simp add: matchesField_def asciiEqualFold_def asciiLower_def)
  have m0: "\<forall>k<1. \<not> matchesField asciiEqualFold ?cols ?names k"
    by (simp add: matchesField_def asciiEqualFold_def asciiLower_def)
  have a: "QueryContext samplePlan ?q = Inr ?rows \<and> rowsColumns ?rows = Inr ?cols
      \<and> rowsRecords ?rows = Inr [Some ''tablereader_5'', Some ''10000.00'', Some ''root''] # []
      \<and> 1 < length ?cols \<and> matchesField asciiEqualFold ?cols ?names 1
      \<and> (\<forall>k<1. \<not> matchesField asciiEqualFold ?cols ?names k)"
    using m1 m0 by (simp add: samplePlan_def)
  have b: "QueryContext \<lparr>QueryContext = (\<lambda>q. Inl ''mock error''), ExecContext = (\<lambda>q. None)\<rparr> ?q
      = Inl ''mock error''"
    by simp
  note s1 = detectEstimateRows_spec[of samplePlan ?q asciiEqualFold sampleParseFloat of_nat ?names,
      THEN conjunct2, THEN conjunct1, rule_format, OF a]
  note s2 = detectEstimateRows_spec[of "\<lparr>QueryContext = (\<lambda>q. Inl ''mock error''), ExecContext = (\<lambda>q. None)\<rparr>"
      ?q asciiEqualFold sampleParseFloat of_nat ?names, THEN conjunct1, rule_format, OF b]
  show ?thesis using s1 s2 by (simp add: nullString_def sampleParseFloat_def)
qed

text \<open>
  An example: of two databases with a view and a blocked table, the statement names the
  two other tables.
\<close>

lemma buildLockTablesSQL_example:
  "buildLockTablesSQL
     [(''db'', [\<lparr>Name = ''t1'', AvgRowLength = 0, Type = TableTypeBase\<rparr>,
               \<lparr>Name = ''v'', AvgRowLength = 0, Type = TableTypeView\<rparr>,
               \<lparr>Name = ''t2'', AvgRowLength = 0, Type = TableTypeBase\<rparr>]),
      (''d2'', [\<lparr>Name = ''t3'', AvgRowLength = 0, Type = TableTypeBase\<rparr>])]
     [''db'' \<mapsto> [''t2'' \<mapsto> ()]]
   = ''LOCK TABLES `db`.`t1` READ,`d2`.`t3` READ''"
  by (simp add: buildLockTablesSQL_def lockTableStep_def escapeString_def)

text \<open>
  Claim C8, as stated: for a table map with a view only, the result is not a
  \<^verbatim>\<open>LOCK TABLES\<close> statement.
\<close>

theorem buildLockTablesSQL_counterexample:
  "take 11 (buildLockTablesSQL [(''db'', [\<lparr>Name = ''v'', AvgRowLength = 0, Type = TableTypeView\<rparr>])]
              (Map.empty :: string \<rightharpoonup> (string \<rightharpoonup> unit))) \<noteq> ''LOCK TABLES''"
  by (simp add: buildLockTablesSQL_def lockTableStep_def)

text \<open>
  Claim C8, amended. \<^verbatim>\<open>buildLockTablesSQL\<close> returns the statement
  \<^verbatim>\<open>LOCK TABLES ... READ\<close> that names, in the order of the table map, exactly the
  base tables of the map that the block list does not name, and the empty text when there
  is no such table.
\<close>

theorem buildLockTablesSQL_spec:
  "buildLockTablesSQL allTables blockList = lockStatement (lockEntries allTables blockList)
   \<and> set (lockEntries allTables blockList)
       = {(dbName, Name t) | dbName tables t.
            (dbName, tables) \<in> set allTables \<and> t \<in> set tables
            \<and> Type t = TableTypeBase \<and> \<not> blocked blockList dbName (Name t)}"
proof -
  have "('''', False) = lockState []" by (simp add: lockState_def lockStatement_def)
  then have "buildLockTablesSQL allTables blockList = lockStatement (lockEntries allTables blockList)"
    unfolding buildLockTablesSQL_def using fold_lock_dbs[of blockList allTables "[]"]
    by (simp add: lockState_def)
  moreover have "set (lockEntries allTables blockList)
       = {(dbName, Name t) | dbName tables t.
            (dbName, tables) \<in> set allTables \<and> t \<in> set tables
            \<and> Type t = TableTypeBase \<and> \<not> blocked blockList dbName (Name t)}"
    unfolding lockEntries_def by (auto simp: image_iff)
  ultimately show ?thesis by simp
qed

text \<open>
  Claim C4, at a table without implicit row identity and without primary key whose
  numeric column \<^verbatim>\<open>id\<close> has a unique index: the code returns no ordering column,
  where it returns \<^verbatim>\<open>id\<close> when the same index is the primary key.
  In general the loop of \<^verbatim>\<open>getNumericIndex\<close> returns the column of the first numeric
  primary-key row, and the empty name when there is none, whatever unique indexes exist.
\<close>

theorem pickupPossibleField_unique_key:
  "pickupPossibleField asciiUpper (\<lambda>r. [1, 2, 3]) zipMap {''INT'', ''BIGINT''}
       uniqueKeyTable uniqueKeyConn = ('''', None)
   \<and> pickupPossibleField asciiUpper (\<lambda>r. [1, 2, 3]) zipMap {''INT'', ''BIGINT''}
       uniqueKeyTable primaryKeyConn = (''id'', None)
   \<and> numericIndexLoop colName2Type dataTypeNum results ''''
       = (case find (numericPrimary colName2Type dataTypeNum) results of
            None \<Rightarrow> '''' | Some oneRow \<Rightarrow> oneRow ! 2)"
proof -
  have g: "GetSpecifiedColumnValuesAndClose asciiUpper (\<lambda>r. [1, 2, 3])
       (Some \<lparr>rowsColumns = Inr [''Table'', ''Non_unique'', ''Key_name'', ''Column_name''],
              rowsRecords = [Inr [Some ''t'', Some ''0'', Some k, Some ''id'']],
              rowsErr = None\<rparr>)
       [''NON_UNIQUE'', ''KEY_NAME'', ''COLUMN_NAME'']
     = ([[''0'', k, ''id'']], None)" for k
    unfolding GetSpecifiedColumnValuesAndClose_def
    by (simp add: sample_fieldIndexMap rowStep_def Let_def)
  have u: "pickupPossibleField asciiUpper (\<lambda>r. [1, 2, 3]) zipMap {''INT'', ''BIGINT''}
       uniqueKeyTable uniqueKeyConn = ('''', None)"
    by (simp add: pickupPossibleField_def getNumericIndex_def uniqueKeyTable_def uniqueKeyConn_def
        g[unfolded One_nat_def] Let_def zipMap_def nullString_def)
  have p: "pickupPossibleField asciiUpper (\<lambda>r. [1, 2, 3]) zipMap {''INT'', ''BIGINT''}
       uniqueKeyTable primaryKeyConn = (''id'', None)"
    by (simp add: pickupPossibleField_def getNumericIndex_def uniqueKeyTable_def primaryKeyConn_def
        g[unfolded One_nat_def] Let_def zipMap_def nullString_def)
  show ?thesis using u p by (simp add: numericIndexLoop_result)
qed

text \<open>
  Claim C5. \<^verbatim>\<open>GetSuitableRows\<close> returns 200000 for an average row length of 0 and
  otherwise the smaller of 134217728 divided by the row length (integer division) and
  1000000; at 32, 1024 and 4096 it returns 1000000, 131072 and 32768.
\<close>

theorem GetSuitableRows_spec:
  "unat (GetSuitableRows a) =
     (if a = 0 then 200000 else min (134217728 div unat a) 1000000)
   \<and> GetSuitableRows 0 = 200000
   \<and> GetSuitableRows 32 = 1000000
   \<and> GetSuitableRows 1024 = 131072
   \<and> GetSuitableRows 4096 = 32768"
proof -
  have d: "unat (bytesPerFile div a) = 134217728 div unat a"
    by (simp add: bytesPerFile_def unat_div)
  have g: "(bytesPerFile div a > maxRows) = (134217728 div unat a > 1000000)"
    by (simp add: word_less_nat_alt d) (simp add: maxRows_def)
  have "unat (GetSuitableRows a) =
     (if a = 0 then 200000 else min (134217728 div unat a) 1000000)"
    by (simp add: GetSuitableRows_def Let_def g d) (simp add: defaultRows_def maxRows_def)
  moreover have "GetSuitableRows 0 = 200000"
    by (simp add: GetSuitableRows_def defaultRows_def)
  moreover have "GetSuitableRows 32 = 1000000"
    by (simp add: GetSuitableRows_def defaultRows_def maxRows_def bytesPerFile_def)
  moreover have "GetSuitableRows 1024 = 131072"
    by (simp add: GetSuitableRows_def defaultRows_def maxRows_def bytesPerFile_def)
  moreover have "GetSuitableRows 4096 = 32768"
    by (simp add: GetSuitableRows_def defaultRows_def maxRows_def bytesPerFile_def)
  ultimately show ?thesis by blast
qed

end
